theory Spec2Isabelle
  imports Main "HOL-Library.Signed_Division" "HOL-Library.Option_ord"
    "HOL-Library.Product_Lexorder"
begin

section \<open>Time\<close>

text \<open>
  Instants and durations are whole seconds on one clock, the resolution of the store's
  \<^verbatim>\<open>CURRENT_TIMESTAMP\<close>. Go's \<^verbatim>\<open>time.Time\<close> and \<^verbatim>\<open>time.Duration\<close> are read at that
  resolution; both are unbounded integers here.
\<close>

type_synonym Time = int
type_synonym Duration = int

definition Second :: Duration where
  "Second = 1"

definition Minute :: Duration where
  "Minute = 60 * Second"

definition Hour :: Duration where
  "Hour = 60 * Minute"

text \<open>\<^verbatim>\<open>int(d.Seconds())\<close>, \<^verbatim>\<open>int(d.Minutes())\<close>, \<^verbatim>\<open>int(d.Hours())\<close>: Go's conversion to
  \<^verbatim>\<open>int\<close> truncates toward zero.\<close>

definition Seconds :: "Duration \<Rightarrow> int" where
  "Seconds d = d sdiv Second"

definition Minutes :: "Duration \<Rightarrow> int" where
  "Minutes d = d sdiv Minute"

definition Hours :: "Duration \<Rightarrow> int" where
  "Hours d = d sdiv Hour"

datatype Weekday = Sunday | Monday | Tuesday | Wednesday | Thursday | Friday | Saturday

text \<open>What the code reads off a \<^verbatim>\<open>time.Time\<close> that has been moved into a location:
  \<^verbatim>\<open>Format("2006-01-02")\<close>, \<^verbatim>\<open>Weekday()\<close>, \<^verbatim>\<open>Hour()\<close>, \<^verbatim>\<open>Minute()\<close>.\<close>

record LocalTime =
  dateStr :: string
  weekday :: Weekday
  hour :: int
  minute :: int

text \<open>A \<^verbatim>\<open>*time.Location\<close> is the conversion it stands for; the time zone database is
  not part of the program.\<close>

type_synonym Location = "Time \<Rightarrow> LocalTime"

definition In_loc :: "Time \<Rightarrow> Location \<Rightarrow> LocalTime" where
  "In_loc t loc = loc t"

section \<open>Timestamps as the store keeps them\<close>

text \<open>
  SQLite keeps a timestamp as text, and its comparisons and its \<^verbatim>\<open>ORDER BY\<close> are those
  of the texts. The columns of the program have two writers. \<^verbatim>\<open>CURRENT_TIMESTAMP\<close> and
  \<^verbatim>\<open>datetime(...)\<close> write the instant in UTC, as \<^verbatim>\<open>YYYY-MM-DD HH:MM:SS\<close>. A
  \<^verbatim>\<open>time.Time\<close> bound to a statement is written by the driver in the zone the value
  carries, for \<^verbatim>\<open>time.Now()\<close> the zone of the process, as the civil time followed by the
  offset from UTC: \<^verbatim>\<open>2006-01-02 15:04:05-07:00\<close>. Scanning a column into a
  \<^verbatim>\<open>sql.NullTime\<close> gives back the instant from either text. Instants being whole
  seconds here, the fraction of a second that the driver would add is never there.
\<close>

datatype Stamp = UTC_text Time | Local_text Time int

fun instant :: "Stamp \<Rightarrow> Time" where
  "instant (UTC_text t) = t"
| "instant (Local_text t off) = t"

text \<open>The civil time that the text begins with, in seconds.\<close>

fun civil :: "Stamp \<Rightarrow> int" where
  "civil (UTC_text t) = t"
| "civil (Local_text t off) = t + off"

text \<open>
  The order of the texts. The first nineteen characters, of fixed width, order as the
  civil time does. Then the text that ends there comes first, then the offsets that begin
  with \<^verbatim>\<open>+\<close>, the smaller first, then those that begin with \<^verbatim>\<open>-\<close>, the smaller
  magnitude first.
\<close>

definition text_key :: "Stamp \<Rightarrow> int \<times> nat \<times> int" where
  "text_key s =
     (case s of
        UTC_text t \<Rightarrow> (t, 0, 0)
      | Local_text t off \<Rightarrow> (t + off, if 0 \<le> off then 1 else 2, \<bar>off\<bar>))"

definition CURRENT_TIMESTAMP :: "Time \<Rightarrow> Stamp" where
  "CURRENT_TIMESTAMP now = UTC_text now"

section \<open>Business hours (notifier/business\_hours)\<close>

record BusinessHours =
  enabled :: bool
  startHour :: int
  endHour :: int
  timezone :: Location
  workDays :: "Weekday \<rightharpoonup> bool"
  holidays :: "string \<rightharpoonup> bool"
  notifyOnOpen :: bool

text \<open>Indexing a Go \<^verbatim>\<open>map[K]bool\<close>: a missing key reads as \<^verbatim>\<open>false\<close>.\<close>

definition index_bool :: "('k \<rightharpoonup> bool) \<Rightarrow> 'k \<Rightarrow> bool" where
  "index_bool m k = (case m k of None \<Rightarrow> False | Some b \<Rightarrow> b)"

definition IsBusinessHours :: "BusinessHours \<Rightarrow> Time \<Rightarrow> bool" where
  "IsBusinessHours bh t =
     (if \<not> enabled bh then True
      else
        let localTime = In_loc t (timezone bh);
            dateStr = dateStr localTime
        in if index_bool (holidays bh) dateStr then False
           else if \<not> index_bool (workDays bh) (weekday localTime) then False
           else
             let hour = hour localTime
             in hour \<ge> startHour bh \<and> hour < endHour bh)"

definition IsStartOfBusinessDay :: "BusinessHours \<Rightarrow> Time \<Rightarrow> bool" where
  "IsStartOfBusinessDay bh t =
     (if \<not> enabled bh \<or> \<not> notifyOnOpen bh then False
      else
        let localTime = In_loc t (timezone bh)
        in if \<not> IsBusinessHours bh t then False
           else hour localTime = startHour bh \<and> minute localTime < 5)"

section \<open>Models (internal/models)\<close>

datatype NotificationType = OpenNoAgentResponse | PendingNoCustomerResponse

datatype NotificationStatus = StatusPending | StatusQueued | StatusSent

record Ticket =
  ID :: int
  Number :: int
  Subject :: string
  CustomerEmail :: string
  CustomerName :: string
  AssignedUserID :: "int option"
  AssignedUserName :: string
  LastReplyAt :: Time
  MinutesSinceReply :: int
  MailboxID :: int
  NotificationType :: NotificationType

record RunStats =
  TicketsChecked :: int
  NotificationsSent :: int
  NotificationsQueued :: int
  Errors :: int
  Duration :: Duration

text \<open>The fields of \<^verbatim>\<open>config.Config\<close> that the notifier reads (\<^verbatim>\<open>Verbose\<close> only adds
  log lines).\<close>

record Config =
  OpenThreshold :: Duration
  PendingThreshold :: Duration
  CooldownPeriod :: Duration
  MaxNotifications :: int
  DryRun :: bool
  FreeScout_URL :: string

section \<open>The local store (internal/database, InitSchema)\<close>

text \<open>
  A row of table \<^verbatim>\<open>notifications\<close>, column by column (the autoincrement \<^verbatim>\<open>id\<close>, which
  no statement of the program reads or writes, is left out). The table is the list of its
  rows in insertion order. \<^verbatim>\<open>ticket_data\<close> keeps its nullability, since the flush scans
  it into a Go \<^verbatim>\<open>string\<close>. \<^verbatim>\<open>first_eligible_at\<close> and \<^verbatim>\<open>event_time\<close> are only ever
  written by their default, \<^verbatim>\<open>CURRENT_TIMESTAMP\<close>, and are kept as the instant.
\<close>

record Row =
  ticket_id :: int
  notification_type :: NotificationType
  notification_status :: NotificationStatus
  first_eligible_at :: Time
  queued_at :: "Stamp option"
  sent_at :: "Stamp option"
  ticket_subject :: string
  customer_name :: string
  assigned_user :: string
  minutes_waiting :: int
  threshold_minutes :: int
  ticket_data :: "string option"

record LogRow =
  event_type :: string
  event_time :: Time
  notifications_sent :: int

text \<open>
  Everything a run can change or observe: the two tables, the clock, the number of calls
  made so far to the store and the transport, the messages the transport accepted, and
  every \<^verbatim>\<open>time.Sleep\<close> of the notifier in order. The clock moves when the notifier
  sleeps; a call to the store or to the transport, with the retries that
  \<^verbatim>\<open>SendMessage\<close> makes inside, takes no time here. Log lines are not kept.
\<close>

record World =
  notifications :: "Row list"
  business_hours_log :: "LogRow list"
  clock :: Time
  calls :: nat
  delivered :: "string list"
  sleeps :: "Duration list"

text \<open>
  The collaborators outside the program. The store and the transport answer each call by
  its position in the run (\<open>local_ok k\<close>: the \<open>k\<close>-th call succeeds at the store;
  \<open>slack_ok k m\<close>: \<^verbatim>\<open>SendMessage\<close> accepts message \<open>m\<close> as the \<open>k\<close>-th call);
  \<^verbatim>\<open>encoding/json\<close> and the two ticket queries are functions, \<open>None\<close> being their
  error; \<open>local_offset t\<close> is the offset from UTC, in seconds, of the zone of the process
  (\<^verbatim>\<open>time.Local\<close>) at the instant \<open>t\<close>.
\<close>

record Outside =
  local_ok :: "nat \<Rightarrow> bool"
  slack_ok :: "nat \<Rightarrow> string \<Rightarrow> bool"
  json_Marshal :: "Ticket \<Rightarrow> string option"
  json_Unmarshal :: "string \<Rightarrow> Ticket option"
  GetOpenTicketsNeedingAttention :: "Duration \<Rightarrow> Ticket list option"
  GetPendingTicketsNeedingAttention :: "Duration \<Rightarrow> Ticket list option"
  local_offset :: "Time \<Rightarrow> int"

datatype error =
  QueryError | ExecError | MarshalError | SendError | OpenTicketsError | PendingTicketsError

definition called :: "World \<Rightarrow> World" where
  "called w = w\<lparr>calls := Suc (calls w)\<rparr>"

text \<open>\<^verbatim>\<open>time.Now()\<close> as the driver writes it when it is bound to a statement.\<close>

definition bound_now :: "Outside \<Rightarrow> World \<Rightarrow> Stamp" where
  "bound_now out w = Local_text (clock w) (local_offset out (clock w))"

definition Sleep :: "Duration \<Rightarrow> World \<Rightarrow> World" where
  "Sleep d w = w\<lparr>clock := clock w + d, sleeps := sleeps w @ [d]\<rparr>"

subsection \<open>The statements\<close>

text \<open>\<^verbatim>\<open>COALESCE(sent_at, queued_at, first_eligible_at)\<close>, as \<^verbatim>\<open>ORDER BY\<close> sees it.\<close>

definition coalesce_at :: "Row \<Rightarrow> int \<times> nat \<times> int" where
  "coalesce_at r =
     (case sent_at r of Some s \<Rightarrow> text_key s
      | None \<Rightarrow>
          (case queued_at r of Some q \<Rightarrow> text_key q
           | None \<Rightarrow> text_key (CURRENT_TIMESTAMP (first_eligible_at r))))"

text \<open>\<^verbatim>\<open>SELECT sent_at, notification_status FROM notifications WHERE ticket_id = ? AND
  notification_type = ? ORDER BY COALESCE(...) DESC LIMIT 1\<close>: the row, if any, the last of
  the rows in ascending order.\<close>

definition select_latest :: "Row list \<Rightarrow> int \<Rightarrow> NotificationType \<Rightarrow> Row option" where
  "select_latest tbl tid ty =
     (case rev (sort_key coalesce_at
                  (filter (\<lambda>r. ticket_id r = tid \<and> notification_type r = ty) tbl)) of
        [] \<Rightarrow> None
      | r # _ \<Rightarrow> Some r)"

text \<open>\<^verbatim>\<open>datetime('now', '-' || ? || ' seconds')\<close>: with a negative parameter the modifier
  reads \<^verbatim>\<open>--n seconds\<close>, which SQLite does not accept, and the value is NULL.\<close>

definition datetime_now_minus :: "Time \<Rightarrow> int \<Rightarrow> Stamp option" where
  "datetime_now_minus now n = (if n < 0 then None else Some (UTC_text (now - n)))"

text \<open>The \<^verbatim>\<open>WHERE\<close> of the upsert's \<^verbatim>\<open>DO UPDATE\<close>:
  \<^verbatim>\<open>notifications.sent_at IS NULL OR notifications.sent_at < datetime(...)\<close>, a
  comparison of the stored text with the text of \<^verbatim>\<open>datetime\<close>.\<close>

definition update_guard :: "Time \<Rightarrow> int \<Rightarrow> Row \<Rightarrow> bool" where
  "update_guard now n r =
     (case sent_at r of
        None \<Rightarrow> True
      | Some s \<Rightarrow>
          (case datetime_now_minus now n of
             None \<Rightarrow> False
           | Some lim \<Rightarrow> text_key s < text_key lim))"

text \<open>The \<^verbatim>\<open>DO UPDATE SET\<close> of the upsert, \<open>ex\<close> being the row proposed for insertion
  (\<^verbatim>\<open>excluded\<close>).\<close>

definition do_update :: "Time \<Rightarrow> Row \<Rightarrow> Row \<Rightarrow> Row" where
  "do_update now ex r =
     r\<lparr>notification_status := notification_status ex,
       ticket_subject := ticket_subject ex,
       customer_name := customer_name ex,
       assigned_user := assigned_user ex,
       minutes_waiting := minutes_waiting ex,
       ticket_data := ticket_data ex,
       queued_at := (if notification_status ex = StatusQueued then Some (CURRENT_TIMESTAMP now)
                     else queued_at r),
       sent_at := (if notification_status ex = StatusSent then Some (CURRENT_TIMESTAMP now)
                   else sent_at r)\<rparr>"

definition same_key :: "Row \<Rightarrow> Row \<Rightarrow> bool" where
  "same_key ex r \<longleftrightarrow> ticket_id r = ticket_id ex \<and> notification_type r = notification_type ex"

text \<open>\<^verbatim>\<open>INSERT INTO notifications (...) VALUES (...) ON CONFLICT(ticket_id,
  notification_type) DO UPDATE SET ... WHERE ...\<close>. Without a conflict the row is
  inserted, \<^verbatim>\<open>first_eligible_at\<close> taking its default \<^verbatim>\<open>CURRENT_TIMESTAMP\<close>.\<close>

definition upsert :: "Time \<Rightarrow> int \<Rightarrow> Row \<Rightarrow> Row list \<Rightarrow> Row list" where
  "upsert now n ex tbl =
     (if filter (same_key ex) tbl = [] then tbl @ [ex\<lparr>first_eligible_at := now\<rparr>]
      else map (\<lambda>r. if same_key ex r \<and> update_guard now n r then do_update now ex r else r) tbl)"

text \<open>\<^verbatim>\<open>SELECT ticket_id, notification_type, ticket_data FROM notifications WHERE
  notification_status = 'queued' ORDER BY queued_at ASC LIMIT ?\<close>, in the order of the
  stored texts. NULL sorts first, as \<open>None\<close> does; a negative \<^verbatim>\<open>LIMIT\<close> is no
  limit.\<close>

definition select_queued :: "int \<Rightarrow> Row list \<Rightarrow> (int \<times> NotificationType \<times> string option) list" where
  "select_queued lim tbl =
     (let rows = sort_key (\<lambda>r. map_option text_key (queued_at r))
                   (filter (\<lambda>r. notification_status r = StatusQueued) tbl)
      in map (\<lambda>r. (ticket_id r, notification_type r, ticket_data r))
           (if lim < 0 then rows else take (nat lim) rows))"

text \<open>\<^verbatim>\<open>UPDATE notifications SET notification_status = 'sent', sent_at =
  CURRENT_TIMESTAMP WHERE ticket_id = ? AND notification_type = ?\<close>\<close>

definition update_sent :: "Time \<Rightarrow> int \<Rightarrow> NotificationType \<Rightarrow> Row list \<Rightarrow> Row list" where
  "update_sent now tid ty tbl =
     map (\<lambda>r. if ticket_id r = tid \<and> notification_type r = ty
               then r\<lparr>notification_status := StatusSent,
                      sent_at := Some (CURRENT_TIMESTAMP now)\<rparr>
               else r) tbl"

section \<open>The notifier (notifier)\<close>

subsection \<open>Formatting\<close>

text \<open>\<^verbatim>\<open>fmt.Sprintf("%d", i)\<close>: the decimal digits, most significant first, after a
  minus sign for a negative number.\<close>

definition digit :: "nat \<Rightarrow> char" where
  "digit k = ''0123456789'' ! k"

fun decimal :: "nat \<Rightarrow> string \<Rightarrow> string" where
  "decimal n acc =
     (if n < 10 then digit n # acc else decimal (n div 10) (digit (n mod 10) # acc))"

declare decimal.simps [simp del]

definition Sprintf_d :: "int \<Rightarrow> string" where
  "Sprintf_d i = (if 0 \<le> i then decimal (nat i) [] else CHR ''-'' # decimal (nat (- i)) [])"

definition formatDuration :: "Duration \<Rightarrow> string" where
  "formatDuration d =
     (if d < Hour then Sprintf_d (Minutes d) @ '' minutes''
      else
        let hours = Hours d;
            minutes = Minutes d smod 60
        in if hours = 1 then
             (if minutes = 0 then ''1 hour''
              else ''1 hour '' @ Sprintf_d minutes @ '' minutes'')
           else if minutes = 0 then Sprintf_d hours @ '' hours''
           else Sprintf_d hours @ '' hours '' @ Sprintf_d minutes @ '' minutes'')"

text \<open>The two emoji, as their UTF-8 bytes (U+1F6A8, U+23F3), and the line feed.\<close>

definition emoji_alarm :: string where
  "emoji_alarm = [CHR 0xF0, CHR 0x9F, CHR 0x9A, CHR 0xA8]"

definition emoji_hourglass :: string where
  "emoji_hourglass = [CHR 0xE2, CHR 0x8F, CHR 0xB3]"

definition LF :: string where
  "LF = [CHR 0x0A]"

text \<open>The product \<^verbatim>\<open>time.Duration(ticket.MinutesSinceReply) * time.Minute\<close> is taken
  without wrap-around.\<close>

definition formatSlackMessage :: "Config \<Rightarrow> Ticket \<Rightarrow> string" where
  "formatSlackMessage cfg ticket =
     (let pending = (NotificationType ticket = PendingNoCustomerResponse);
          emoji = (if pending then emoji_hourglass else emoji_alarm);
          action = (if pending then ''waiting for customer'' else ''needs attention'');
          waitingFor = (if pending then ''customer response'' else ''agent response'');
          timeAgo = formatDuration (MinutesSinceReply ticket * Minute);
          ticketURL = FreeScout_URL cfg @ ''/conversation/'' @ Sprintf_d (Number ticket)
      in emoji @ '' Ticket #'' @ Sprintf_d (Number ticket) @ '' '' @ action @ LF
         @ ''*Subject:* '' @ Subject ticket @ LF
         @ ''*Customer:* '' @ CustomerName ticket @ LF
         @ ''*Waiting for:* '' @ waitingFor @ '' for '' @ timeAgo @ LF
         @ (if AssignedUserName ticket \<noteq> [] then ''*Assigned to:* '' @ AssignedUserName ticket @ LF
            else ''*Assigned to:* Unassigned'' @ LF)
         @ ''*View ticket:* <'' @ ticketURL @ ''|Open in FreeScout>'')"

definition sendNotification :: "Outside \<Rightarrow> Config \<Rightarrow> Ticket \<Rightarrow> World \<Rightarrow> error option \<times> World" where
  "sendNotification out cfg ticket w =
     (let message = formatSlackMessage cfg ticket
      in if slack_ok out (calls w) message
         then (None, (called w)\<lparr>delivered := delivered w @ [message]\<rparr>)
         else (Some SendError, called w))"

subsection \<open>The dedup store's operations\<close>

text \<open>Go returns \<^verbatim>\<open>(bool, error)\<close>; the error, when there is one, comes with \<^verbatim>\<open>false\<close>.\<close>

definition shouldSkipTicket :: "Outside \<Rightarrow> Config \<Rightarrow> Ticket \<Rightarrow> World \<Rightarrow> (error + bool) \<times> World" where
  "shouldSkipTicket out cfg ticket w =
     (if \<not> local_ok out (calls w) then (Inl QueryError, called w)
      else
        case select_latest (notifications w) (ID ticket) (NotificationType ticket) of
          None \<Rightarrow> (Inr False, called w)
        | Some r \<Rightarrow>
            if notification_status r = StatusQueued then (Inr True, called w)
            else
              (case sent_at r of
                 Some sentAt \<Rightarrow>
                   let cooldownExpiry = instant sentAt + CooldownPeriod cfg
                   in if clock w < cooldownExpiry then (Inr True, called w)
                      else (Inr False, called w)
               | None \<Rightarrow> (Inr False, called w)))"

text \<open>The row that \<^verbatim>\<open>recordNotification\<close> binds to the \<^verbatim>\<open>INSERT\<close>; \<^verbatim>\<open>first_eligible_at\<close>
  is not among the bound columns and gets its value in \<^const>\<open>upsert\<close>.\<close>

definition bound_row ::
  "Config \<Rightarrow> Ticket \<Rightarrow> NotificationStatus \<Rightarrow> string \<Rightarrow> Stamp \<Rightarrow> Row" where
  "bound_row cfg ticket status ticketJSON now =
     (let queuedAt = (if status = StatusQueued then Some now else None);
          sentAt = (if status = StatusQueued then None
                    else if status = StatusSent then Some now else None);
          thresholdMinutes =
            (if NotificationType ticket = PendingNoCustomerResponse
             then Minutes (PendingThreshold cfg) else Minutes (OpenThreshold cfg))
      in \<lparr>ticket_id = ID ticket,
          notification_type = NotificationType ticket,
          notification_status = status,
          first_eligible_at = instant now,
          queued_at = queuedAt,
          sent_at = sentAt,
          ticket_subject = Subject ticket,
          customer_name = CustomerName ticket,
          assigned_user = AssignedUserName ticket,
          minutes_waiting = MinutesSinceReply ticket,
          threshold_minutes = thresholdMinutes,
          ticket_data = Some ticketJSON\<rparr>)"

definition recordNotification ::
  "Outside \<Rightarrow> Config \<Rightarrow> Ticket \<Rightarrow> NotificationStatus \<Rightarrow> World \<Rightarrow> error option \<times> World" where
  "recordNotification out cfg ticket status w =
     (case json_Marshal out ticket of
        None \<Rightarrow> (Some MarshalError, w)
      | Some ticketJSON \<Rightarrow>
          if \<not> local_ok out (calls w) then (Some ExecError, called w)
          else
            (None, (called w)\<lparr>notifications :=
               upsert (clock w) (Seconds (CooldownPeriod cfg))
                 (bound_row cfg ticket status ticketJSON (bound_now out w)) (notifications w)\<rparr>))"

subsection \<open>The flush of the queue\<close>

text \<open>The body of the loop over the drained rows, \<open>sent\<close> being the loop's counter. Every
  \<^verbatim>\<open>continue\<close> leaves the counter as it is. The rows are those the query returned
  when it was issued; the updates of the loop do not reach back into them.\<close>

definition flush_row ::
  "Outside \<Rightarrow> Config \<Rightarrow> int \<times> NotificationType \<times> string option \<Rightarrow> int \<Rightarrow> World \<Rightarrow> int \<times> World" where
  "flush_row out cfg row sent w =
     (case row of (ticketID, notificationType, scanned) \<Rightarrow>
        (case scanned of
           None \<Rightarrow> (sent, w)
         | Some ticketData \<Rightarrow>
             (case json_Unmarshal out ticketData of
                None \<Rightarrow> (sent, w)
              | Some ticket \<Rightarrow>
                  (case (if \<not> DryRun cfg then sendNotification out cfg ticket w else (None, w)) of
                     (Some err, w1) \<Rightarrow> (sent, w1)
                   | (None, w1) \<Rightarrow>
                       if \<not> local_ok out (calls w1) then (sent, called w1)
                       else
                         let w2 = (called w1)\<lparr>notifications :=
                                    update_sent (clock w1) ticketID notificationType
                                      (notifications w1)\<rparr>;
                             sent = sent + 1
                         in if sent < MaxNotifications cfg then (sent, Sleep (2 * Second) w2)
                            else (sent, w2)))))"

fun flush_rows ::
  "Outside \<Rightarrow> Config \<Rightarrow> (int \<times> NotificationType \<times> string option) list \<Rightarrow> int \<Rightarrow> World
     \<Rightarrow> int \<times> World" where
  "flush_rows out cfg [] sent w = (sent, w)"
| "flush_rows out cfg (row # rows) sent w =
     (case flush_row out cfg row sent w of (sent', w') \<Rightarrow> flush_rows out cfg rows sent' w')"

text \<open>\<^verbatim>\<open>INSERT INTO business_hours_log (event_type, notifications_sent) VALUES
  ('burst_sent', ?)\<close>; a failure is only logged.\<close>

definition log_burst :: "Outside \<Rightarrow> int \<Rightarrow> World \<Rightarrow> World" where
  "log_burst out sent w =
     (if local_ok out (calls w)
      then (called w)\<lparr>business_hours_log := business_hours_log w @
             [\<lparr>event_type = ''burst_sent'', event_time = clock w, notifications_sent = sent\<rparr>]\<rparr>
      else called w)"

definition sendQueuedNotifications ::
  "Outside \<Rightarrow> Config \<Rightarrow> World \<Rightarrow> (int \<times> error option) \<times> World" where
  "sendQueuedNotifications out cfg w =
     (if \<not> local_ok out (calls w) then ((0, Some QueryError), called w)
      else
        case flush_rows out cfg (select_queued (MaxNotifications cfg) (notifications w)) 0
               (called w) of
          (sent, w1) \<Rightarrow>
            ((sent, None), (if sent > 0 then log_burst out sent w1 else w1)))"

subsection \<open>One pass\<close>

definition processTicket ::
  "Outside \<Rightarrow> Config \<Rightarrow> Ticket \<Rightarrow> bool \<Rightarrow> RunStats \<Rightarrow> World \<Rightarrow> error option \<times> RunStats \<times> World" where
  "processTicket out cfg ticket isBusinessHours stats w =
     (case shouldSkipTicket out cfg ticket w of
        (Inl err, w1) \<Rightarrow> (Some err, stats, w1)
      | (Inr shouldSkip, w1) \<Rightarrow>
          if shouldSkip then (None, stats, w1)
          else if isBusinessHours then
            (case (if \<not> DryRun cfg then sendNotification out cfg ticket w1 else (None, w1)) of
               (Some err, w2) \<Rightarrow> (Some err, stats, w2)
             | (None, w2) \<Rightarrow>
                 (case recordNotification out cfg ticket StatusSent w2 of
                    (Some err, w3) \<Rightarrow> (Some err, stats, w3)
                  | (None, w3) \<Rightarrow>
                      (None, stats\<lparr>NotificationsSent := NotificationsSent stats + 1\<rparr>, w3)))
          else
            (case recordNotification out cfg ticket StatusQueued w1 of
               (Some err, w2) \<Rightarrow> (Some err, stats, w2)
             | (None, w2) \<Rightarrow>
                 (None, stats\<lparr>NotificationsQueued := NotificationsQueued stats + 1\<rparr>, w2)))"

fun process_all ::
  "Outside \<Rightarrow> Config \<Rightarrow> Ticket list \<Rightarrow> bool \<Rightarrow> RunStats \<Rightarrow> World \<Rightarrow> RunStats \<times> World" where
  "process_all out cfg [] isBusinessHours stats w = (stats, w)"
| "process_all out cfg (ticket # tickets) isBusinessHours stats w =
     (case processTicket out cfg ticket isBusinessHours stats w of
        (Some err, stats', w') \<Rightarrow>
          process_all out cfg tickets isBusinessHours (stats'\<lparr>Errors := Errors stats' + 1\<rparr>) w'
      | (None, stats', w') \<Rightarrow> process_all out cfg tickets isBusinessHours stats' w')"

text \<open>The block of \<^verbatim>\<open>Run\<close> that flushes the queue at the start of the business day.\<close>

definition flush_at_start_of_day ::
  "Outside \<Rightarrow> Config \<Rightarrow> bool \<Rightarrow> RunStats \<Rightarrow> World \<Rightarrow> RunStats \<times> World" where
  "flush_at_start_of_day out cfg isStartOfDay stats w =
     (if isStartOfDay then
        (case sendQueuedNotifications out cfg w of
           ((sent, Some err), w') \<Rightarrow> (stats\<lparr>Errors := Errors stats + 1\<rparr>, w')
         | ((sent, None), w') \<Rightarrow>
             (stats\<lparr>NotificationsSent := NotificationsSent stats + sent\<rparr>, w'))
      else (stats, w))"

definition Run ::
  "Outside \<Rightarrow> Config \<Rightarrow> BusinessHours \<Rightarrow> World \<Rightarrow> (RunStats \<times> error option) \<times> World" where
  "Run out cfg bh w =
     (let start = clock w;
          stats = \<lparr>TicketsChecked = 0, NotificationsSent = 0, NotificationsQueued = 0,
                   Errors = 0, Duration = 0\<rparr>;
          now = clock w;
          isBusinessHours = IsBusinessHours bh now;
          isStartOfDay = IsStartOfBusinessDay bh now
      in case flush_at_start_of_day out cfg isStartOfDay stats w of
           (stats, w) \<Rightarrow>
             (case GetOpenTicketsNeedingAttention out (OpenThreshold cfg) of
                None \<Rightarrow> ((stats, Some OpenTicketsError), w)
              | Some openTickets \<Rightarrow>
                  let stats = stats\<lparr>TicketsChecked := TicketsChecked stats + int (length openTickets)\<rparr>
                  in (case GetPendingTicketsNeedingAttention out (PendingThreshold cfg) of
                        None \<Rightarrow> ((stats, Some PendingTicketsError), w)
                      | Some pendingTickets \<Rightarrow>
                          let stats = stats\<lparr>TicketsChecked :=
                                        TicketsChecked stats + int (length pendingTickets)\<rparr>;
                              allTickets = openTickets @ pendingTickets
                          in (case process_all out cfg allTickets isBusinessHours stats w of
                                (stats, w) \<Rightarrow>
                                  ((stats\<lparr>Duration := clock w - start\<rparr>, None), w)))))"

section \<open>Concrete inputs\<close>

text \<open>A location for the examples: instants count the seconds from Monday 2024-07-01,
  00:00 local time, within that month.\<close>

definition july_2024 :: Location where
  "july_2024 t =
     \<lparr>dateStr = ''2024-07-'' @ (if t div 86400 < 9 then ''0'' else []) @ Sprintf_d (1 + t div 86400),
      weekday = [Monday, Tuesday, Wednesday, Thursday, Friday, Saturday, Sunday]
                  ! nat ((t div 86400) mod 7),
      hour = (t div 3600) mod 24,
      minute = (t div 60) mod 60\<rparr>"

text \<open>Monday to Friday, 9 to 17, the fourth of July off.\<close>

definition office :: BusinessHours where
  "office =
     \<lparr>enabled = True, startHour = 9, endHour = 17, timezone = july_2024,
      workDays = [Monday \<mapsto> True, Tuesday \<mapsto> True, Wednesday \<mapsto> True, Thursday \<mapsto> True,
                  Friday \<mapsto> True],
      holidays = [''2024-07-04'' \<mapsto> True],
      notifyOnOpen = True\<rparr>"

text \<open>A ticket as the open-ticket query returns it, three hours after the customer's
  last reply, and the default configuration.\<close>

definition ticket42 :: Ticket where
  "ticket42 =
     \<lparr>ID = 42, Number = 1042, Subject = ''Printer on fire'',
      CustomerEmail = ''ada@example.com'', CustomerName = ''Ada Lovelace'',
      AssignedUserID = None, AssignedUserName = '' '', LastReplyAt = 21600,
      MinutesSinceReply = 180, MailboxID = 1, NotificationType = OpenNoAgentResponse\<rparr>"

definition config0 :: Config where
  "config0 =
     \<lparr>OpenThreshold = 2 * Hour, PendingThreshold = 24 * Hour, CooldownPeriod = 4 * Hour,
      MaxNotifications = 50, DryRun = False, FreeScout_URL = ''https://support.example.com''\<rparr>"

text \<open>A store and a transport that never fail, in a process whose zone is UTC. The codec of the examples writes a ticket
  as its identifier and knows \<^const>\<open>ticket42\<close> only.\<close>

definition outside_ok :: Outside where
  "outside_ok =
     \<lparr>local_ok = (\<lambda>k. True), slack_ok = (\<lambda>k m. True),
      json_Marshal = (\<lambda>t. Some (Sprintf_d (ID t))),
      json_Unmarshal = (\<lambda>s. if s = ''42'' then Some ticket42 else None),
      GetOpenTicketsNeedingAttention = (\<lambda>d. Some []),
      GetPendingTicketsNeedingAttention = (\<lambda>d. Some []),
      local_offset = (\<lambda>t. 0)\<rparr>"

text \<open>The record of \<^const>\<open>ticket42\<close>, first eligible at 100, in a given state, its
  timestamps written by the store.\<close>

definition row42 :: "NotificationStatus \<Rightarrow> Time option \<Rightarrow> Time option \<Rightarrow> Row" where
  "row42 status queuedAt sentAt =
     \<lparr>ticket_id = 42, notification_type = OpenNoAgentResponse, notification_status = status,
      first_eligible_at = 100, queued_at = map_option UTC_text queuedAt,
      sent_at = map_option UTC_text sentAt,
      ticket_subject = ''Printer on fire'', customer_name = ''Ada Lovelace'',
      assigned_user = '' '', minutes_waiting = 120, threshold_minutes = 120,
      ticket_data = Some ''42''\<rparr>"

definition world0 :: "Row list \<Rightarrow> Time \<Rightarrow> World" where
  "world0 tbl now =
     \<lparr>notifications = tbl, business_hours_log = [], clock = now, calls = 0, delivered = [],
      sleeps = []\<rparr>"

text \<open>A queue of three records and collaborators that fail once each: the first record
  holds a malformed ticket; the transport refuses the second call of the run, the send for
  the second record; the store refuses the fourth call, the write for the third
  record.\<close>

definition queue3 :: "Row list" where
  "queue3 =
     [(row42 StatusQueued (Some 5) None)\<lparr>ticket_id := 7, ticket_data := Some ''{''\<rparr>,
      row42 StatusQueued (Some 6) None,
      (row42 StatusQueued (Some 7) None)\<lparr>notification_type := PendingNoCustomerResponse\<rparr>]"

definition outside_failing :: Outside where
  "outside_failing = outside_ok\<lparr>local_ok := (\<lambda>k. k \<noteq> 3), slack_ok := (\<lambda>k m. k \<noteq> 1)\<rparr>"

text \<open>The record of ticket 42 was sent at 1000; at 20000, the cooldown over and the office
  closed, the pass records it as queued. And a transport that refuses every message.\<close>

definition requeued :: World where
  "requeued =
     snd (recordNotification outside_ok config0 ticket42 StatusQueued
            (world0 [row42 StatusSent None (Some 1000)] 20000))"

definition outside_refusing :: Outside where
  "outside_refusing = outside_ok\<lparr>slack_ok := (\<lambda>k m. False)\<rparr>"

text \<open>The same collaborators in a process nine hours east of UTC, and in one six hours
  west; and the ticket of the examples seen again later, eight hours after the reply.\<close>

definition outside_east :: Outside where
  "outside_east = outside_ok\<lparr>local_offset := (\<lambda>t. 32400)\<rparr>"

definition outside_west :: Outside where
  "outside_west = outside_ok\<lparr>local_offset := (\<lambda>t. - 21600)\<rparr>"

definition ticket42_later :: Ticket where
  "ticket42_later = ticket42\<lparr>MinutesSinceReply := 480\<rparr>"

text \<open>New tickets for a pass: the open-ticket query returns \<^const>\<open>ticket42\<close>, and the
  transport refuses every message.\<close>

definition outside_refusing_new :: Outside where
  "outside_refusing_new =
     outside_refusing\<lparr>GetOpenTicketsNeedingAttention := (\<lambda>d. Some [ticket42])\<rparr>"

text \<open>The first observation of ticket 42, at 100000 and in business hours: the pass sends
  and records \<open>sent\<close>, which inserts the record, with the \<open>sent_at\<close> that the driver
  writes for \<^verbatim>\<open>time.Now()\<close>.\<close>

definition first_sent :: "Outside \<Rightarrow> World" where
  "first_sent out = snd (recordNotification out config0 ticket42 StatusSent (world0 [] 100000))"

section \<open>Properties of the business-hours oracle\<close>

text \<open>
  C3. \<^const>\<open>IsBusinessHours\<close> is true whenever the feature is disabled. When it is
  enabled, it is false if the local date of the instant (in the configured time zone) is
  in the holiday set, false if the local weekday is not a work day, and otherwise true
  exactly when \<open>startHour \<le> hour < endHour\<close>; so on a working, non-holiday day it is
  true at the start hour (the interval being non-empty) and false at the end hour.
\<close>

theorem IsBusinessHours_spec:
  "(\<not> enabled bh \<longrightarrow> IsBusinessHours bh t) \<and>
   (enabled bh \<and> holidays bh (dateStr (timezone bh t)) = Some True
      \<longrightarrow> \<not> IsBusinessHours bh t) \<and>
   (enabled bh \<and> workDays bh (weekday (timezone bh t)) \<noteq> Some True
      \<longrightarrow> \<not> IsBusinessHours bh t) \<and>
   (enabled bh \<and> holidays bh (dateStr (timezone bh t)) \<noteq> Some True \<and>
    workDays bh (weekday (timezone bh t)) = Some True
      \<longrightarrow> (IsBusinessHours bh t \<longleftrightarrow>
             hour (timezone bh t) \<in> {startHour bh ..< endHour bh}) \<and>
          (hour (timezone bh t) = startHour bh \<and> startHour bh < endHour bh
             \<longrightarrow> IsBusinessHours bh t) \<and>
          (hour (timezone bh t) = endHour bh \<longrightarrow> \<not> IsBusinessHours bh t))"
  by (auto simp: IsBusinessHours_def In_loc_def index_bool_def Let_def
           split: option.splits)

text \<open>Monday 09:00 is business time and Monday 17:00 is not; Thursday the fourth, a
  holiday, and Sunday the seventh are not at any hour; with the feature off every instant
  is.\<close>

theorem IsBusinessHours_spec_witness:
  "IsBusinessHours office 32400 \<and> \<not> IsBusinessHours office 61200 \<and>
   \<not> IsBusinessHours office 295200 \<and> \<not> IsBusinessHours office 550800 \<and>
   IsBusinessHours (office\<lparr>enabled := False\<rparr>) 550800"
  using IsBusinessHours_spec [of office 32400] IsBusinessHours_spec [of office 61200]
    IsBusinessHours_spec [of office 295200] IsBusinessHours_spec [of office 550800]
    IsBusinessHours_spec [of "office\<lparr>enabled := False\<rparr>" 550800]
  by (simp add: office_def july_2024_def Sprintf_d_def decimal.simps digit_def)

text \<open>
  C4. \<^const>\<open>IsStartOfBusinessDay\<close> is true exactly when business hours are enabled, the
  start-of-day notification is on, \<^const>\<open>IsBusinessHours\<close> holds, the local hour is the
  start hour and the local minute is below 5. So it is false when either switch is off and
  false from minute 5 of the start hour on.
\<close>

theorem IsStartOfBusinessDay_spec:
  "(IsStartOfBusinessDay bh t \<longleftrightarrow>
      enabled bh \<and> notifyOnOpen bh \<and> IsBusinessHours bh t \<and>
      hour (timezone bh t) = startHour bh \<and> minute (timezone bh t) < 5) \<and>
   (\<not> enabled bh \<or> \<not> notifyOnOpen bh \<longrightarrow> \<not> IsStartOfBusinessDay bh t) \<and>
   (5 \<le> minute (timezone bh t) \<longrightarrow> \<not> IsStartOfBusinessDay bh t)"
proof -
  have eq: "IsStartOfBusinessDay bh t \<longleftrightarrow>
      enabled bh \<and> notifyOnOpen bh \<and> IsBusinessHours bh t \<and>
      hour (timezone bh t) = startHour bh \<and> minute (timezone bh t) < 5"
    unfolding IsStartOfBusinessDay_def In_loc_def Let_def by (cases "enabled bh") auto
  then show ?thesis by auto
qed

text \<open>Monday 09:00 and 09:04 are in the window, 09:05 is not; Sunday 09:00, the day
  before, is not; nor is Monday 09:00 with either switch off.\<close>

theorem IsStartOfBusinessDay_spec_witness:
  "IsStartOfBusinessDay office 32400 \<and> IsStartOfBusinessDay office 32640 \<and>
   \<not> IsStartOfBusinessDay office 32700 \<and> \<not> IsStartOfBusinessDay office 550800 \<and>
   \<not> IsStartOfBusinessDay (office\<lparr>notifyOnOpen := False\<rparr>) 32400 \<and>
   \<not> IsStartOfBusinessDay (office\<lparr>enabled := False\<rparr>) 32400"
proof -
  have bh: "IsBusinessHours office 32400" "IsBusinessHours office 32640"
    by (simp_all add: IsBusinessHours_def In_loc_def index_bool_def office_def july_2024_def
          Sprintf_d_def decimal.simps digit_def)
  have sun: "\<not> IsBusinessHours office 550800"
    by (simp add: IsBusinessHours_def In_loc_def index_bool_def office_def july_2024_def
          Sprintf_d_def decimal.simps digit_def)
  show ?thesis
    using bh sun
      IsStartOfBusinessDay_spec [of office 32400] IsStartOfBusinessDay_spec [of office 32640]
      IsStartOfBusinessDay_spec [of office 32700] IsStartOfBusinessDay_spec [of office 550800]
      IsStartOfBusinessDay_spec [of "office\<lparr>notifyOnOpen := False\<rparr>" 32400]
      IsStartOfBusinessDay_spec [of "office\<lparr>enabled := False\<rparr>" 32400]
    by (simp add: office_def july_2024_def)
qed


section \<open>Properties of the dedup store\<close>

text \<open>The row that \<^const>\<open>select_latest\<close> returns has the key asked for and none of the
  key comes after it in the order of the query; there is none exactly when no row has the
  key; and a row of the key that comes after every other one is the row returned.\<close>

lemma sort_key_Nil_iff: "sort_key f xs = [] \<longleftrightarrow> xs = []"
  using length_sort [of f xs] by (metis length_0_conv)

lemma select_latest_None_iff:
  "select_latest tbl tid ty = None \<longleftrightarrow>
     (\<forall>r\<in>set tbl. ticket_id r \<noteq> tid \<or> notification_type r \<noteq> ty)"
proof -
  let ?rows = "filter (\<lambda>r. ticket_id r = tid \<and> notification_type r = ty) tbl"
  have "select_latest tbl tid ty = None \<longleftrightarrow> rev (sort_key coalesce_at ?rows) = []"
    by (simp add: select_latest_def split: list.splits)
  also have "\<dots> \<longleftrightarrow> sort_key coalesce_at ?rows = []"
    by (rule rev_is_Nil_conv)
  also have "\<dots> \<longleftrightarrow> ?rows = []"
    by (rule sort_key_Nil_iff)
  also have "\<dots> \<longleftrightarrow> (\<forall>r\<in>set tbl. ticket_id r \<noteq> tid \<or> notification_type r \<noteq> ty)"
    by (simp add: filter_empty_conv)
  finally show ?thesis .
qed

lemma select_latest_most_recent:
  assumes "select_latest tbl tid ty = Some r"
  shows "r \<in> set tbl" and "ticket_id r = tid" and "notification_type r = ty"
    and "\<And>r'. r' \<in> set tbl \<Longrightarrow> ticket_id r' = tid \<Longrightarrow> notification_type r' = ty
           \<Longrightarrow> coalesce_at r' \<le> coalesce_at r"
proof -
  let ?rows = "filter (\<lambda>r. ticket_id r = tid \<and> notification_type r = ty) tbl"
  let ?sorted = "sort_key coalesce_at ?rows"
  from assms obtain rest where "rev ?sorted = r # rest"
    by (cases "rev ?sorted") (simp_all add: select_latest_def)
  then have shape: "?sorted = rev rest @ [r]"
    by (simp add: rev_swap)
  then have "r \<in> set ?sorted" by simp
  then have mem: "r \<in> set ?rows" by simp
  then show "r \<in> set tbl" "ticket_id r = tid" "notification_type r = ty" by simp_all
  fix r' assume "r' \<in> set tbl" "ticket_id r' = tid" "notification_type r' = ty"
  then have "r' \<in> set ?sorted" by simp
  then have r': "r' = r \<or> r' \<in> set rest"
    unfolding shape by simp
  have "sorted (map coalesce_at ?sorted)" by (rule sorted_sort_key)
  then have "\<forall>x\<in>set rest. coalesce_at x \<le> coalesce_at r"
    unfolding shape by (simp add: sorted_append)
  with r' show "coalesce_at r' \<le> coalesce_at r" by blast
qed

lemma select_latest_strict:
  assumes r: "r \<in> set tbl" "ticket_id r = tid" "notification_type r = ty"
    and later: "\<And>r'. r' \<in> set tbl \<Longrightarrow> ticket_id r' = tid \<Longrightarrow> notification_type r' = ty
           \<Longrightarrow> r' \<noteq> r \<Longrightarrow> coalesce_at r' < coalesce_at r"
  shows "select_latest tbl tid ty = Some r"
proof (cases "select_latest tbl tid ty")
  case None
  with r show ?thesis by (simp add: select_latest_None_iff)
next
  case (Some r')
  note top = select_latest_most_recent [OF Some]
  have "r' = r"
  proof (rule ccontr)
    assume "r' \<noteq> r"
    with top(1-3) have "coalesce_at r' < coalesce_at r" by (rule later)
    moreover from r have "coalesce_at r \<le> coalesce_at r'" by (rule top(4))
    ultimately show False by simp
  qed
  with Some show ?thesis by simp
qed

text \<open>
  C1. When the lookup succeeds, \<^const>\<open>shouldSkipTicket\<close> answers: do not skip, if no
  record has the key of the ticket. Otherwise let \<open>r\<close> be the most recent record of the
  key: a record of the key in the table that every other record of the key comes before,
  in the order of \<^verbatim>\<open>COALESCE(sent_at, queued_at, first_eligible_at)\<close> that the query
  sorts by (under the \<^verbatim>\<open>UNIQUE\<close> constraint, the one record of the key). The answer is:
  skip, if \<open>r\<close> is queued, whatever its age; skip, if \<open>r\<close> has a \<open>sent_at\<close> of instant
  \<open>t0\<close> and the time of evaluation is before \<open>t0 + cooldown\<close>, so throughout
  \<open>[t0, t0 + cooldown)\<close>; and do not skip otherwise, that is at or after
  \<open>t0 + cooldown\<close>, or with no \<open>sent_at\<close>.
\<close>

theorem shouldSkipTicket_spec:
  assumes ok: "local_ok out (calls w)"
  shows
    "((\<forall>r\<in>set (notifications w).
         ticket_id r \<noteq> ID ticket \<or> notification_type r \<noteq> NotificationType ticket)
        \<longrightarrow> fst (shouldSkipTicket out cfg ticket w) = Inr False) \<and>
     (\<forall>r\<in>set (notifications w).
        ticket_id r = ID ticket \<and> notification_type r = NotificationType ticket \<and>
        (\<forall>r'\<in>set (notifications w).
           ticket_id r' = ID ticket \<and> notification_type r' = NotificationType ticket \<and> r' \<noteq> r
           \<longrightarrow> coalesce_at r' < coalesce_at r) \<longrightarrow>
        (notification_status r = StatusQueued
           \<longrightarrow> fst (shouldSkipTicket out cfg ticket w) = Inr True) \<and>
        (\<forall>s. sent_at r = Some s \<longrightarrow>
           (clock w < instant s + CooldownPeriod cfg
              \<longrightarrow> fst (shouldSkipTicket out cfg ticket w) = Inr True) \<and>
           (notification_status r \<noteq> StatusQueued \<and> instant s + CooldownPeriod cfg \<le> clock w
              \<longrightarrow> fst (shouldSkipTicket out cfg ticket w) = Inr False)) \<and>
        (notification_status r \<noteq> StatusQueued \<and> sent_at r = None
           \<longrightarrow> fst (shouldSkipTicket out cfg ticket w) = Inr False))"
proof (intro conjI ballI impI allI)
  assume "\<forall>r\<in>set (notifications w).
    ticket_id r \<noteq> ID ticket \<or> notification_type r \<noteq> NotificationType ticket"
  then have "select_latest (notifications w) (ID ticket) (NotificationType ticket) = None"
    by (simp only: select_latest_None_iff)
  with ok show "fst (shouldSkipTicket out cfg ticket w) = Inr False"
    by (simp add: shouldSkipTicket_def)
next
  fix r
  assume r: "r \<in> set (notifications w)"
    and top: "ticket_id r = ID ticket \<and> notification_type r = NotificationType ticket \<and>
        (\<forall>r'\<in>set (notifications w).
           ticket_id r' = ID ticket \<and> notification_type r' = NotificationType ticket \<and> r' \<noteq> r
           \<longrightarrow> coalesce_at r' < coalesce_at r)"
  then have latest:
    "select_latest (notifications w) (ID ticket) (NotificationType ticket) = Some r"
    by (intro select_latest_strict) simp_all
  show "fst (shouldSkipTicket out cfg ticket w) = Inr True"
    if "notification_status r = StatusQueued"
    using ok latest that by (simp add: shouldSkipTicket_def)
  show "fst (shouldSkipTicket out cfg ticket w) = Inr True"
    if "sent_at r = Some s" and "clock w < instant s + CooldownPeriod cfg" for s
    using ok latest that by (simp add: shouldSkipTicket_def)
  show "fst (shouldSkipTicket out cfg ticket w) = Inr False"
    if "sent_at r = Some s"
      and "notification_status r \<noteq> StatusQueued \<and> instant s + CooldownPeriod cfg \<le> clock w"
    for s
    using ok latest that by (simp add: shouldSkipTicket_def)
  show "fst (shouldSkipTicket out cfg ticket w) = Inr False"
    if "notification_status r \<noteq> StatusQueued \<and> sent_at r = None"
    using ok latest that by (simp add: shouldSkipTicket_def)
qed


text \<open>With a cooldown of four hours (14400 seconds). Nothing recorded: no skip. Sent at
  1000: skip at 500, at 1000 and at 15399, no skip at 15400. A pending record never sent:
  no skip. Two records of the key, against the constraint: sent at 1000 and then queued at
  30000, skip however late, the queued one being the most recent; queued at 5 and then
  sent at 30000, skip at 44399 and no skip at 44400, the sent one being the most
  recent.\<close>

theorem shouldSkipTicket_spec_witness:
  "fst (shouldSkipTicket outside_ok config0 ticket42 (world0 [] 0)) = Inr False \<and>
   fst (shouldSkipTicket outside_ok config0 ticket42
          (world0 [row42 StatusSent None (Some 1000)] 500)) = Inr True \<and>
   fst (shouldSkipTicket outside_ok config0 ticket42
          (world0 [row42 StatusSent None (Some 1000)] 1000)) = Inr True \<and>
   fst (shouldSkipTicket outside_ok config0 ticket42
          (world0 [row42 StatusSent None (Some 1000)] 15399)) = Inr True \<and>
   fst (shouldSkipTicket outside_ok config0 ticket42
          (world0 [row42 StatusSent None (Some 1000)] 15400)) = Inr False \<and>
   fst (shouldSkipTicket outside_ok config0 ticket42
          (world0 [row42 StatusPending None None] 15400)) = Inr False \<and>
   fst (shouldSkipTicket outside_ok config0 ticket42
          (world0 [row42 StatusSent None (Some 1000), row42 StatusQueued (Some 30000) None]
             99999999)) = Inr True \<and>
   fst (shouldSkipTicket outside_ok config0 ticket42
          (world0 [row42 StatusQueued (Some 5) None, row42 StatusSent None (Some 30000)]
             44399)) = Inr True \<and>
   fst (shouldSkipTicket outside_ok config0 ticket42
          (world0 [row42 StatusQueued (Some 5) None, row42 StatusSent None (Some 30000)]
             44400)) = Inr False"
proof -
  note defs = outside_ok_def world0_def ticket42_def config0_def row42_def coalesce_at_def
    text_key_def CURRENT_TIMESTAMP_def Hour_def Minute_def Second_def
  have "fst (shouldSkipTicket outside_ok config0 ticket42 (world0 [] 0)) = Inr False"
    using shouldSkipTicket_spec [of outside_ok "world0 [] 0" ticket42 config0]
    by (simp add: defs)
  moreover
  have "fst (shouldSkipTicket outside_ok config0 ticket42
          (world0 [row42 StatusSent None (Some 1000)] 500)) = Inr True"
    using shouldSkipTicket_spec [of outside_ok "world0 [row42 StatusSent None (Some 1000)] 500"
        ticket42 config0]
    by (simp add: defs)
  moreover
  have "fst (shouldSkipTicket outside_ok config0 ticket42
          (world0 [row42 StatusSent None (Some 1000)] 1000)) = Inr True"
    using shouldSkipTicket_spec [of outside_ok "world0 [row42 StatusSent None (Some 1000)] 1000"
        ticket42 config0]
    by (simp add: defs)
  moreover
  have "fst (shouldSkipTicket outside_ok config0 ticket42
          (world0 [row42 StatusSent None (Some 1000)] 15399)) = Inr True"
    using shouldSkipTicket_spec [of outside_ok "world0 [row42 StatusSent None (Some 1000)] 15399"
        ticket42 config0]
    by (simp add: defs)
  moreover
  have "fst (shouldSkipTicket outside_ok config0 ticket42
          (world0 [row42 StatusSent None (Some 1000)] 15400)) = Inr False"
    using shouldSkipTicket_spec [of outside_ok "world0 [row42 StatusSent None (Some 1000)] 15400"
        ticket42 config0]
    by (simp add: defs)
  moreover
  have "fst (shouldSkipTicket outside_ok config0 ticket42
          (world0 [row42 StatusPending None None] 15400)) = Inr False"
    using shouldSkipTicket_spec [of outside_ok "world0 [row42 StatusPending None None] 15400"
        ticket42 config0]
    by (simp add: defs)
  moreover
  have "fst (shouldSkipTicket outside_ok config0 ticket42
          (world0 [row42 StatusSent None (Some 1000), row42 StatusQueued (Some 30000) None]
             99999999)) = Inr True"
    using shouldSkipTicket_spec [of outside_ok
        "world0 [row42 StatusSent None (Some 1000), row42 StatusQueued (Some 30000) None]
           99999999" ticket42 config0]
    by (simp add: defs)
  moreover
  have "fst (shouldSkipTicket outside_ok config0 ticket42
          (world0 [row42 StatusQueued (Some 5) None, row42 StatusSent None (Some 30000)]
             44399)) = Inr True"
    using shouldSkipTicket_spec [of outside_ok
        "world0 [row42 StatusQueued (Some 5) None, row42 StatusSent None (Some 30000)] 44399"
        ticket42 config0]
    by (simp add: defs)
  moreover
  have "fst (shouldSkipTicket outside_ok config0 ticket42
          (world0 [row42 StatusQueued (Some 5) None, row42 StatusSent None (Some 30000)]
             44400)) = Inr False"
    using shouldSkipTicket_spec [of outside_ok
        "world0 [row42 StatusQueued (Some 5) None, row42 StatusSent None (Some 30000)] 44400"
        ticket42 config0]
    by (simp add: defs)
  ultimately show ?thesis by (intro conjI)
qed


subsection \<open>The upsert\<close>

lemma Seconds_whole [simp]: "Seconds d = d"
  by (simp add: Seconds_def Second_def)

lemma called_fields [simp]:
  "notifications (called w) = notifications w"
  "business_hours_log (called w) = business_hours_log w"
  "clock (called w) = clock w"
  "delivered (called w) = delivered w"
  "sleeps (called w) = sleeps w"
  "calls (called w) = Suc (calls w)"
  by (simp_all add: called_def)

lemma upsert_insert:
  "filter (same_key ex) tbl = [] \<Longrightarrow> upsert now n ex tbl = tbl @ [ex\<lparr>first_eligible_at := now\<rparr>]"
  by (simp add: upsert_def)

lemma upsert_conflict:
  "filter (same_key ex) tbl \<noteq> [] \<Longrightarrow>
   upsert now n ex tbl =
     map (\<lambda>r. if same_key ex r \<and> update_guard now n r then do_update now ex r else r) tbl"
  by (simp add: upsert_def)

lemma upsert_conflict_nth:
  assumes "i < length tbl" and "same_key ex (tbl ! i)"
  shows "length (upsert now n ex tbl) = length tbl"
    and "upsert now n ex tbl ! i =
           (if update_guard now n (tbl ! i) then do_update now ex (tbl ! i) else tbl ! i)"
    and "\<And>j. j < length tbl \<Longrightarrow> \<not> same_key ex (tbl ! j) \<Longrightarrow> upsert now n ex tbl ! j = tbl ! j"
proof -
  from assms have "tbl ! i \<in> set (filter (same_key ex) tbl)" by simp
  then have ne: "filter (same_key ex) tbl \<noteq> []" by (metis empty_iff empty_set)
  show "length (upsert now n ex tbl) = length tbl"
    by (simp add: upsert_conflict [OF ne])
  show "upsert now n ex tbl ! i =
          (if update_guard now n (tbl ! i) then do_update now ex (tbl ! i) else tbl ! i)"
    using assms by (simp add: upsert_conflict [OF ne])
  show "\<And>j. j < length tbl \<Longrightarrow> \<not> same_key ex (tbl ! j) \<Longrightarrow> upsert now n ex tbl ! j = tbl ! j"
    by (simp add: upsert_conflict [OF ne])
qed

lemma recordNotification_ok:
  assumes "recordNotification out cfg ticket status w = (None, w')"
  obtains ticketJSON where "json_Marshal out ticket = Some ticketJSON"
    and "notifications w' =
           upsert (clock w) (CooldownPeriod cfg)
             (bound_row cfg ticket status ticketJSON (bound_now out w)) (notifications w)"
proof (cases "json_Marshal out ticket")
  case None
  with assms show ?thesis by (simp add: recordNotification_def)
next
  case (Some ticketJSON)
  with assms have "notifications w' =
      upsert (clock w) (CooldownPeriod cfg)
        (bound_row cfg ticket status ticketJSON (bound_now out w)) (notifications w)"
    by (cases "local_ok out (calls w)") (simp_all add: recordNotification_def, force)
  with Some that show ?thesis by blast
qed

lemma bound_row_fields [simp]:
  "ticket_id (bound_row cfg ticket status js now) = ID ticket"
  "notification_type (bound_row cfg ticket status js now) = NotificationType ticket"
  "notification_status (bound_row cfg ticket status js now) = status"
  "ticket_subject (bound_row cfg ticket status js now) = Subject ticket"
  "customer_name (bound_row cfg ticket status js now) = CustomerName ticket"
  "assigned_user (bound_row cfg ticket status js now) = AssignedUserName ticket"
  "minutes_waiting (bound_row cfg ticket status js now) = MinutesSinceReply ticket"
  "ticket_data (bound_row cfg ticket status js now) = Some js"
  by (simp_all add: bound_row_def Let_def)

text \<open>The guard reads the civil time that the stored text begins with. With a
  \<open>sent_at\<close> and a cooldown that is not negative, it lets the update through exactly when
  that civil time, taken as if it were UTC, is more than the cooldown before now.\<close>

lemma text_key_less_UTC: "text_key s < text_key (UTC_text t) \<longleftrightarrow> civil s < t"
  by (cases s) (simp_all add: text_key_def)

lemma update_guard_iff:
  assumes "sent_at r = Some s" and "0 \<le> n"
  shows "update_guard now n r \<longleftrightarrow> civil s + n < now"
  using assms
  by (simp add: update_guard_def datetime_now_minus_def text_key_less_UTC) linarith

text \<open>
  So the cooldown guard does what it is meant to do on a \<open>sent_at\<close> whose text is in UTC,
  which is every \<open>sent_at\<close> that \<^verbatim>\<open>CURRENT_TIMESTAMP\<close> wrote and every one at all in a
  process whose zone is UTC. On such a record, and at any instant but
  \<open>sent_at + cooldown\<close> itself: within the window the upsert is a no-op on the row;
  with no \<open>sent_at\<close>, or one older than the cooldown, the update replaces the status and
  the denormalized fields subject, customer name, assigned user, minutes waiting and
  ticket data (\<^verbatim>\<open>threshold_minutes\<close>, which the \<^verbatim>\<open>SET\<close> list does not name, stays).
  Rows of other keys are never touched.
\<close>

lemma recordNotification_cooldown_guard_utc:
  assumes rec: "recordNotification out cfg ticket status w = (None, w')"
    and i: "i < length (notifications w)"
    and key: "ticket_id (notifications w ! i) = ID ticket"
      "notification_type (notifications w ! i) = NotificationType ticket"
    and utc: "\<And>s. sent_at (notifications w ! i) = Some s \<Longrightarrow> civil s = instant s"
  shows
    "length (notifications w') = length (notifications w) \<and>
     (\<forall>s. sent_at (notifications w ! i) = Some s \<and> clock w < instant s + CooldownPeriod cfg
        \<longrightarrow> notifications w' ! i = notifications w ! i) \<and>
     (0 \<le> CooldownPeriod cfg \<and>
      (sent_at (notifications w ! i) = None \<or>
       (\<exists>s. sent_at (notifications w ! i) = Some s \<and>
            instant s + CooldownPeriod cfg < clock w))
        \<longrightarrow> notification_status (notifications w' ! i) = status \<and>
            ticket_subject (notifications w' ! i) = Subject ticket \<and>
            customer_name (notifications w' ! i) = CustomerName ticket \<and>
            assigned_user (notifications w' ! i) = AssignedUserName ticket \<and>
            minutes_waiting (notifications w' ! i) = MinutesSinceReply ticket \<and>
            ticket_data (notifications w' ! i) = json_Marshal out ticket) \<and>
     (\<forall>j < length (notifications w).
        (ticket_id (notifications w ! j) \<noteq> ID ticket \<or>
         notification_type (notifications w ! j) \<noteq> NotificationType ticket)
        \<longrightarrow> notifications w' ! j = notifications w ! j)"
proof -
  from rec obtain js where js: "json_Marshal out ticket = Some js"
    and tbl': "notifications w' =
      upsert (clock w) (CooldownPeriod cfg) (bound_row cfg ticket status js (bound_now out w))
        (notifications w)"
    by (rule recordNotification_ok)
  let ?ex = "bound_row cfg ticket status js (bound_now out w)"
  let ?r = "notifications w ! i"
  have same: "same_key ?ex ?r"
    using key by (simp add: same_key_def)
  note nth = upsert_conflict_nth [OF i same, where now = "clock w" and n = "CooldownPeriod cfg"]
  have len: "length (notifications w') = length (notifications w)"
    by (simp add: tbl' nth(1))
  have inside: "notifications w' ! i = ?r"
    if "sent_at ?r = Some s" and "clock w < instant s + CooldownPeriod cfg" for s
  proof -
    from that utc [of s] have "\<not> update_guard (clock w) (CooldownPeriod cfg) ?r"
      by (simp add: update_guard_def datetime_now_minus_def text_key_less_UTC)
    then show ?thesis by (simp add: tbl' nth(2))
  qed
  have outside: "notifications w' ! i = do_update (clock w) ?ex ?r"
    if nonneg: "0 \<le> CooldownPeriod cfg"
      and old: "sent_at ?r = None \<or>
        (\<exists>s. sent_at ?r = Some s \<and> instant s + CooldownPeriod cfg < clock w)"
  proof -
    have "update_guard (clock w) (CooldownPeriod cfg) ?r"
    proof (cases "sent_at ?r")
      case None
      then show ?thesis by (simp add: update_guard_def)
    next
      case (Some s)
      with old utc [of s] have "civil s + CooldownPeriod cfg < clock w" by simp
      with Some nonneg show ?thesis by (simp add: update_guard_iff)
    qed
    then show ?thesis by (simp add: tbl' nth(2))
  qed
  have others: "notifications w' ! j = notifications w ! j"
    if "j < length (notifications w)"
      and "ticket_id (notifications w ! j) \<noteq> ID ticket \<or>
           notification_type (notifications w ! j) \<noteq> NotificationType ticket" for j
  proof -
    from that(2) have "\<not> same_key ?ex (notifications w ! j)"
      by (simp add: same_key_def)
    with that(1) show ?thesis by (simp add: tbl' nth(3))
  qed
  show ?thesis
  proof (intro conjI allI impI)
    show "length (notifications w') = length (notifications w)" by (rule len)
  next
    fix s assume "sent_at ?r = Some s \<and> clock w < instant s + CooldownPeriod cfg"
    then show "notifications w' ! i = ?r" using inside by blast
  next
    assume a: "0 \<le> CooldownPeriod cfg \<and>
      (sent_at ?r = None \<or>
       (\<exists>s. sent_at ?r = Some s \<and> instant s + CooldownPeriod cfg < clock w))"
    then have upd: "notifications w' ! i = do_update (clock w) ?ex ?r"
      using outside by blast
    show "notification_status (notifications w' ! i) = status"
      and "ticket_subject (notifications w' ! i) = Subject ticket"
      and "customer_name (notifications w' ! i) = CustomerName ticket"
      and "assigned_user (notifications w' ! i) = AssignedUserName ticket"
      and "minutes_waiting (notifications w' ! i) = MinutesSinceReply ticket"
      and "ticket_data (notifications w' ! i) = json_Marshal out ticket"
      by (simp_all add: upd do_update_def js)
  next
    fix j
    assume "j < length (notifications w)"
      and "ticket_id (notifications w ! j) \<noteq> ID ticket \<or>
           notification_type (notifications w ! j) \<noteq> NotificationType ticket"
    then show "notifications w' ! j = notifications w ! j" by (rule others)
  qed
qed


text \<open>
  C2. The claim is that the upsert is a no-op on a record whose \<open>sent_at\<close> is within the
  cooldown window, and replaces status and denormalized fields on one whose \<open>sent_at\<close> is
  older than the cooldown. The \<^verbatim>\<open>WHERE\<close> of the upsert compares texts, and the
  \<open>sent_at\<close> of a record that was inserted as \<open>sent\<close> is the text that the driver wrote
  in the zone of the process, so the code does neither outside UTC. With a cooldown of
  four hours and a record inserted as \<open>sent\<close> at 100000: nine hours east of UTC and
  five hours later, the cooldown over, \<^const>\<open>shouldSkipTicket\<close> does not skip the
  ticket, and the \<^const>\<open>recordNotification\<close> of the pass succeeds and changes nothing;
  six hours west, a \<^const>\<open>recordNotification\<close> one second later, inside the cooldown,
  replaces minutes waiting, ticket data and \<open>sent_at\<close>.
\<close>

theorem upsert_guard_compares_texts:
  "map sent_at (notifications (first_sent outside_east)) = [Some (Local_text 100000 32400)] \<and>
   100000 + CooldownPeriod config0 < 118000 \<and>
   fst (shouldSkipTicket outside_east config0 ticket42_later
          ((first_sent outside_east)\<lparr>clock := 118000\<rparr>)) = Inr False \<and>
   fst (recordNotification outside_east config0 ticket42_later StatusSent
          ((first_sent outside_east)\<lparr>clock := 118000\<rparr>)) = None \<and>
   notifications (snd (recordNotification outside_east config0 ticket42_later StatusSent
          ((first_sent outside_east)\<lparr>clock := 118000\<rparr>)))
     = notifications (first_sent outside_east) \<and>
   map minutes_waiting (notifications (first_sent outside_east)) = [180] \<and>
   map sent_at (notifications (first_sent outside_west))
     = [Some (Local_text 100000 (- 21600))] \<and>
   100001 < 100000 + CooldownPeriod config0 \<and>
   map minutes_waiting (notifications (snd (recordNotification outside_west config0
          ticket42_later StatusSent ((first_sent outside_west)\<lparr>clock := 100001\<rparr>)))) = [480] \<and>
   map sent_at (notifications (snd (recordNotification outside_west config0
          ticket42_later StatusSent ((first_sent outside_west)\<lparr>clock := 100001\<rparr>))))
     = [Some (UTC_text 100001)]"
proof -
  have cfg: "CooldownPeriod config0 = 14400"
    by (simp add: config0_def Hour_def Minute_def Second_def)
  have json: "json_Marshal outside_east ticket42 = Some ''42''"
    "json_Marshal outside_east ticket42_later = Some ''42''"
    "json_Marshal outside_west ticket42 = Some ''42''"
    "json_Marshal outside_west ticket42_later = Some ''42''"
    by (simp_all add: outside_east_def outside_west_def outside_ok_def ticket42_later_def
          ticket42_def Sprintf_d_def decimal.simps digit_def)
  have out: "\<And>k. local_ok outside_east k" "\<And>k. local_ok outside_west k"
    "\<And>t. local_offset outside_east t = 32400" "\<And>t. local_offset outside_west t = - 21600"
    by (simp_all add: outside_east_def outside_west_def outside_ok_def)
  have key: "ID ticket42 = 42" "ID ticket42_later = 42"
    "NotificationType ticket42 = OpenNoAgentResponse"
    "NotificationType ticket42_later = OpenNoAgentResponse"
    "MinutesSinceReply ticket42 = 180" "MinutesSinceReply ticket42_later = 480"
    by (simp_all add: ticket42_later_def ticket42_def)
  let ?east = "bound_row config0 ticket42 StatusSent ''42'' (Local_text 100000 32400)"
  let ?west = "bound_row config0 ticket42 StatusSent ''42'' (Local_text 100000 (- 21600))"
  have sent: "sent_at ?east = Some (Local_text 100000 32400)"
    "sent_at ?west = Some (Local_text 100000 (- 21600))"
    by (simp_all add: bound_row_def Let_def)
  have east: "notifications (first_sent outside_east) = [?east\<lparr>first_eligible_at := 100000\<rparr>]"
    by (simp add: first_sent_def recordNotification_def json out world0_def bound_now_def
          upsert_def)
  have west: "notifications (first_sent outside_west) = [?west\<lparr>first_eligible_at := 100000\<rparr>]"
    by (simp add: first_sent_def recordNotification_def json out world0_def bound_now_def
          upsert_def)
  have calls: "\<And>out. local_ok out (calls ((first_sent out)\<lparr>clock := 118000\<rparr>))
      = local_ok out (calls (first_sent out))"
    by simp
  have dropped: "\<not> update_guard 118000 14400 (?east\<lparr>first_eligible_at := 100000\<rparr>)"
    by (simp add: update_guard_def datetime_now_minus_def text_key_less_UTC sent)
  have passed: "update_guard 100001 14400 (?west\<lparr>first_eligible_at := 100000\<rparr>)"
    by (simp add: update_guard_def datetime_now_minus_def text_key_less_UTC sent)
  have later_east: "recordNotification outside_east config0 ticket42_later StatusSent
        ((first_sent outside_east)\<lparr>clock := 118000\<rparr>)
      = (None, (called ((first_sent outside_east)\<lparr>clock := 118000\<rparr>))
           \<lparr>notifications := [?east\<lparr>first_eligible_at := 100000\<rparr>]\<rparr>)"
    by (simp add: recordNotification_def json out east cfg upsert_def same_key_def key
          dropped)
  have later_west: "notifications (snd (recordNotification outside_west config0 ticket42_later
        StatusSent ((first_sent outside_west)\<lparr>clock := 100001\<rparr>)))
      = [do_update 100001
           (bound_row config0 ticket42_later StatusSent ''42'' (Local_text 100001 (- 21600)))
           (?west\<lparr>first_eligible_at := 100000\<rparr>)]"
    by (simp add: recordNotification_def json out west cfg upsert_def same_key_def key
          passed bound_now_def)
  have "map minutes_waiting [?east\<lparr>first_eligible_at := 100000\<rparr>] = [180]"
    by (simp add: key)
  moreover have "map minutes_waiting
      [do_update 100001
         (bound_row config0 ticket42_later StatusSent ''42'' (Local_text 100001 (- 21600)))
         (?west\<lparr>first_eligible_at := 100000\<rparr>)] = [480]"
    by (simp add: do_update_def key)
  moreover have "map sent_at
      [do_update 100001
         (bound_row config0 ticket42_later StatusSent ''42'' (Local_text 100001 (- 21600)))
         (?west\<lparr>first_eligible_at := 100000\<rparr>)] = [Some (UTC_text 100001)]"
    by (simp add: do_update_def CURRENT_TIMESTAMP_def)
  moreover have "fst (shouldSkipTicket outside_east config0 ticket42_later
      ((first_sent outside_east)\<lparr>clock := 118000\<rparr>)) = Inr False"
    by (simp add: shouldSkipTicket_def out east select_latest_def key sent cfg
          bound_row_def Let_def)
  ultimately show ?thesis
    by (simp add: east west later_east later_west sent cfg)
qed


subsection \<open>Columns that a write leaves alone\<close>

lemma do_update_frame [simp]:
  "first_eligible_at (do_update now ex r) = first_eligible_at r"
  "ticket_id (do_update now ex r) = ticket_id r"
  "notification_type (do_update now ex r) = notification_type r"
  "threshold_minutes (do_update now ex r) = threshold_minutes r"
  "notification_status ex \<noteq> StatusSent \<Longrightarrow> sent_at (do_update now ex r) = sent_at r"
  "notification_status ex \<noteq> StatusQueued \<Longrightarrow> queued_at (do_update now ex r) = queued_at r"
  "notification_status ex = StatusSent \<Longrightarrow>
     sent_at (do_update now ex r) = Some (CURRENT_TIMESTAMP now)"
  "notification_status ex = StatusQueued \<Longrightarrow>
     queued_at (do_update now ex r) = Some (CURRENT_TIMESTAMP now)"
  by (simp_all add: do_update_def)

text \<open>A column that the update leaves alone on every row reads the same on the old rows
  after the upsert.\<close>

lemma upsert_column_frame:
  assumes "\<And>r. col (do_update now ex r) = col r"
  shows "map col (take (length tbl) (upsert now n ex tbl)) = map col tbl"
proof (cases "filter (same_key ex) tbl = []")
  case True
  then show ?thesis by (simp add: upsert_insert)
next
  case False
  have "map col (map (\<lambda>r. if same_key ex r \<and> update_guard now n r then do_update now ex r else r) tbl)
      = map col tbl"
    by (induction tbl) (simp_all add: assms)
  with False show ?thesis by (simp add: upsert_conflict)
qed

lemma recordNotification_table:
  "notifications (snd (recordNotification out cfg ticket status w)) = notifications w \<or>
   (\<exists>js. notifications (snd (recordNotification out cfg ticket status w)) =
      upsert (clock w) (CooldownPeriod cfg) (bound_row cfg ticket status js (bound_now out w))
        (notifications w))"
  by (cases "json_Marshal out ticket"; cases "local_ok out (calls w)")
     (simp_all add: recordNotification_def, blast)

lemma recordNotification_column_frame:
  assumes "\<And>now js st r. col (do_update now (bound_row cfg ticket status js st) r) = col r"
  shows "map col (take (length (notifications w))
           (notifications (snd (recordNotification out cfg ticket status w))))
         = map col (notifications w)"
  using recordNotification_table [of out cfg ticket status w]
  by (elim disjE exE) (simp_all add: upsert_column_frame assms)

lemma update_sent_frame:
  "map first_eligible_at (update_sent now tid ty tbl) = map first_eligible_at tbl"
  "map queued_at (update_sent now tid ty tbl) = map queued_at tbl"
  by (induction tbl) (simp_all add: update_sent_def)


section \<open>Properties of the flush\<close>

lemma Sleep_fields [simp]:
  "notifications (Sleep d w) = notifications w"
  "business_hours_log (Sleep d w) = business_hours_log w"
  "clock (Sleep d w) = clock w + d"
  "delivered (Sleep d w) = delivered w"
  "sleeps (Sleep d w) = sleeps w @ [d]"
  "calls (Sleep d w) = calls w"
  by (simp_all add: Sleep_def)

lemma sendNotification_fields [simp]:
  "notifications (snd (sendNotification out cfg ticket w)) = notifications w"
  "business_hours_log (snd (sendNotification out cfg ticket w)) = business_hours_log w"
  "clock (snd (sendNotification out cfg ticket w)) = clock w"
  "sleeps (snd (sendNotification out cfg ticket w)) = sleeps w"
  "calls (snd (sendNotification out cfg ticket w)) = Suc (calls w)"
  by (simp_all add: sendNotification_def Let_def)

lemma sendNotification_error:
  "fst (sendNotification out cfg ticket w) \<noteq> None \<longleftrightarrow>
     \<not> slack_ok out (calls w) (formatSlackMessage cfg ticket)"
  by (simp add: sendNotification_def Let_def)

lemma sendNotification_failed:
  "\<not> slack_ok out (calls w) (formatSlackMessage cfg ticket) \<Longrightarrow>
   sendNotification out cfg ticket w = (Some SendError, called w)"
  by (simp add: sendNotification_def Let_def)

text \<open>The three ways in which the body of the loop gives a row up, and the way it
  completes one.\<close>

lemma flush_row_unscanned:
  "flush_row out cfg (tid, ty, None) sent w = (sent, w)"
  by (simp add: flush_row_def)

lemma flush_row_malformed:
  "json_Unmarshal out ticketData = None \<Longrightarrow>
   flush_row out cfg (tid, ty, Some ticketData) sent w = (sent, w)"
  by (simp add: flush_row_def)

lemma flush_row_send_failed:
  "json_Unmarshal out ticketData = Some ticket \<Longrightarrow> \<not> DryRun cfg \<Longrightarrow>
   \<not> slack_ok out (calls w) (formatSlackMessage cfg ticket) \<Longrightarrow>
   flush_row out cfg (tid, ty, Some ticketData) sent w = (sent, called w)"
  by (simp add: flush_row_def sendNotification_failed)

lemma flush_row_write_failed:
  assumes "json_Unmarshal out ticketData = Some ticket"
    and "w1 = (if DryRun cfg then w else snd (sendNotification out cfg ticket w))"
    and "DryRun cfg \<or> slack_ok out (calls w) (formatSlackMessage cfg ticket)"
    and "\<not> local_ok out (calls w1)"
  shows "flush_row out cfg (tid, ty, Some ticketData) sent w = (sent, called w1)"
  using assms by (cases "DryRun cfg") (simp_all add: flush_row_def sendNotification_def Let_def)

lemma flush_row_sent:
  assumes "json_Unmarshal out ticketData = Some ticket"
    and "w1 = (if DryRun cfg then w else snd (sendNotification out cfg ticket w))"
    and "DryRun cfg \<or> slack_ok out (calls w) (formatSlackMessage cfg ticket)"
    and "local_ok out (calls w1)"
    and "w2 = (called w1)\<lparr>notifications := update_sent (clock w) tid ty (notifications w)\<rparr>"
  shows "flush_row out cfg (tid, ty, Some ticketData) sent w =
           (sent + 1, if sent + 1 < MaxNotifications cfg then Sleep (2 * Second) w2 else w2)"
  using assms by (cases "DryRun cfg") (simp_all add: flush_row_def sendNotification_def Let_def)

text \<open>Every turn of the loop is one of the two: the row is given up, and then the counter,
  the tables, the clock and the sleeps are as before; or the row is marked sent.\<close>

lemma flush_row_cases:
  assumes "flush_row out cfg (tid, ty, scanned) sent w = (sent', w')"
  obtains (skipped) "sent' = sent" "notifications w' = notifications w"
      "sleeps w' = sleeps w" "clock w' = clock w"
      "business_hours_log w' = business_hours_log w"
  | (marked) "sent' = sent + 1"
      "notifications w' = update_sent (clock w) tid ty (notifications w)"
      "sleeps w' = sleeps w @ (if sent + 1 < MaxNotifications cfg then [2 * Second] else [])"
      "business_hours_log w' = business_hours_log w"
proof (cases scanned)
  case None
  with assms have "sent' = sent" "w' = w" by (simp_all add: flush_row_unscanned)
  then show ?thesis by (simp add: skipped)
next
  case (Some ticketData)
  show ?thesis
  proof (cases "json_Unmarshal out ticketData")
    case None
    with assms Some have "sent' = sent" "w' = w" by (simp_all add: flush_row_malformed)
    then show ?thesis by (simp add: skipped)
  next
    case (Some ticket)
    define w1 where "w1 = (if DryRun cfg then w else snd (sendNotification out cfg ticket w))"
    have w1: "notifications w1 = notifications w" "sleeps w1 = sleeps w" "clock w1 = clock w"
      "business_hours_log w1 = business_hours_log w"
      by (simp_all add: w1_def)
    show ?thesis
    proof (cases "DryRun cfg \<or> slack_ok out (calls w) (formatSlackMessage cfg ticket)")
      case False
      with assms \<open>scanned = Some ticketData\<close> Some have "sent' = sent" "w' = called w"
        by (simp_all add: flush_row_send_failed)
      then show ?thesis by (simp add: skipped)
    next
      case sendable: True
      show ?thesis
      proof (cases "local_ok out (calls w1)")
        case False
        from flush_row_write_failed [OF Some w1_def sendable False, of tid ty sent]
          assms \<open>scanned = Some ticketData\<close>
        have "sent' = sent" "w' = called w1" by simp_all
        then show ?thesis by (simp add: skipped w1)
      next
        case True
        let ?w2 = "(called w1)\<lparr>notifications := update_sent (clock w) tid ty (notifications w)\<rparr>"
        let ?w3 = "if sent + 1 < MaxNotifications cfg then Sleep (2 * Second) ?w2 else ?w2"
        have run: "flush_row out cfg (tid, ty, Some ticketData) sent w = (sent + 1, ?w3)"
          by (rule flush_row_sent [OF Some w1_def sendable True refl])
        have given: "flush_row out cfg (tid, ty, Some ticketData) sent w = (sent', w')"
          using assms unfolding \<open>scanned = Some ticketData\<close> .
        have "(sent', w') = (sent + 1, ?w3)"
          by (rule trans [OF given [symmetric] run])
        then have "sent' = sent + 1 \<and> w' = ?w3"
          by (simp only: prod.inject)
        then show ?thesis by (simp add: marked w1)
      qed
    qed
  qed
qed



subsection \<open>Timestamps through the upsert and the flush\<close>

lemma log_burst_fields [simp]:
  "notifications (log_burst out sent w) = notifications w"
  "clock (log_burst out sent w) = clock w"
  "sleeps (log_burst out sent w) = sleeps w"
  "delivered (log_burst out sent w) = delivered w"
  by (simp_all add: log_burst_def)

text \<open>A column that marking a row sent leaves alone reads the same after the whole
  flush.\<close>

lemma flush_rows_column_frame:
  assumes "\<And>now tid ty tbl. map col (update_sent now tid ty tbl) = map col tbl"
  shows "map col (notifications (snd (flush_rows out cfg rows sent w))) = map col (notifications w)"
proof (induction rows arbitrary: sent w)
  case Nil
  show ?case by simp
next
  case (Cons row rows)
  obtain tid ty scanned where row: "row = (tid, ty, scanned)"
    by (cases row)
  obtain sent' w' where step: "flush_row out cfg (tid, ty, scanned) sent w = (sent', w')"
    by (cases "flush_row out cfg (tid, ty, scanned) sent w")
  from step have "map col (notifications w') = map col (notifications w)"
    by (cases rule: flush_row_cases) (simp_all add: assms)
  with Cons.IH [of sent' w'] show ?case
    by (simp add: row step)
qed

lemma sendQueuedNotifications_column_frame:
  assumes "\<And>now tid ty tbl. map col (update_sent now tid ty tbl) = map col tbl"
  shows "map col (notifications (snd (sendQueuedNotifications out cfg w))) = map col (notifications w)"
proof (cases "local_ok out (calls w)")
  case False
  then show ?thesis by (simp add: sendQueuedNotifications_def)
next
  case True
  let ?rows = "select_queued (MaxNotifications cfg) (notifications w)"
  obtain sent w1 where run: "flush_rows out cfg ?rows 0 (called w) = (sent, w1)"
    by (cases "flush_rows out cfg ?rows 0 (called w)")
  from flush_rows_column_frame [of col out cfg ?rows 0 "called w", OF assms]
  have "map col (notifications w1) = map col (notifications w)"
    by (simp add: run)
  with True show ?thesis
    by (simp add: sendQueuedNotifications_def run)
qed

text \<open>
  C8. \<^verbatim>\<open>first_eligible_at\<close> gets its value when the record is first inserted, the time
  of the insert, and no later \<^const>\<open>recordNotification\<close>, no \<^const>\<open>update_sent\<close> and no
  flush changes it on any row. On the rows that were there, recording \<open>queued\<close> leaves
  every \<open>sent_at\<close> as it was and recording \<open>sent\<close> leaves every \<open>queued_at\<close> as it
  was, and marking a row sent leaves \<open>queued_at\<close> as it was. Where the conflict update
  applies, recording \<open>queued\<close> stamps \<open>queued_at\<close> and recording \<open>sent\<close> stamps
  \<open>sent_at\<close> with the time of the write, the store's \<^verbatim>\<open>CURRENT_TIMESTAMP\<close>.
\<close>

theorem timestamps_frame:
  "map first_eligible_at (take (length (notifications w))
       (notifications (snd (recordNotification out cfg ticket status w))))
     = map first_eligible_at (notifications w) \<and>
   map first_eligible_at (update_sent now tid ty tbl) = map first_eligible_at tbl \<and>
   map first_eligible_at (notifications (snd (sendQueuedNotifications out cfg w)))
     = map first_eligible_at (notifications w) \<and>
   map sent_at (take (length (notifications w))
       (notifications (snd (recordNotification out cfg ticket StatusQueued w))))
     = map sent_at (notifications w) \<and>
   map queued_at (take (length (notifications w))
       (notifications (snd (recordNotification out cfg ticket StatusSent w))))
     = map queued_at (notifications w) \<and>
   map queued_at (update_sent now tid ty tbl) = map queued_at tbl \<and>
   ((\<forall>r\<in>set (notifications w).
       ticket_id r \<noteq> ID ticket \<or> notification_type r \<noteq> NotificationType ticket) \<and>
    recordNotification out cfg ticket status w = (None, w')
      \<longrightarrow> (\<exists>r. notifications w' = notifications w @ [r] \<and> first_eligible_at r = clock w \<and>
               ticket_id r = ID ticket \<and> notification_type r = NotificationType ticket)) \<and>
   (\<forall>i < length (notifications w).
      ticket_id (notifications w ! i) = ID ticket \<and>
      notification_type (notifications w ! i) = NotificationType ticket \<and>
      update_guard (clock w) (CooldownPeriod cfg) (notifications w ! i) \<and>
      recordNotification out cfg ticket status w = (None, w')
      \<longrightarrow> (status = StatusQueued \<longrightarrow> queued_at (notifications w' ! i) = Some (CURRENT_TIMESTAMP (clock w))) \<and>
          (status = StatusSent \<longrightarrow> sent_at (notifications w' ! i) = Some (CURRENT_TIMESTAMP (clock w))))"
proof (intro conjI allI impI)
  show "map first_eligible_at (take (length (notifications w))
       (notifications (snd (recordNotification out cfg ticket status w))))
     = map first_eligible_at (notifications w)"
    by (rule recordNotification_column_frame) simp
  show "map first_eligible_at (update_sent now tid ty tbl) = map first_eligible_at tbl"
    by (rule update_sent_frame)
  show "map first_eligible_at (notifications (snd (sendQueuedNotifications out cfg w)))
     = map first_eligible_at (notifications w)"
    by (rule sendQueuedNotifications_column_frame) (rule update_sent_frame)
  show "map sent_at (take (length (notifications w))
       (notifications (snd (recordNotification out cfg ticket StatusQueued w))))
     = map sent_at (notifications w)"
    by (rule recordNotification_column_frame) simp
  show "map queued_at (take (length (notifications w))
       (notifications (snd (recordNotification out cfg ticket StatusSent w))))
     = map queued_at (notifications w)"
    by (rule recordNotification_column_frame) simp
  show "map queued_at (update_sent now tid ty tbl) = map queued_at tbl"
    by (rule update_sent_frame)
next
  assume a: "(\<forall>r\<in>set (notifications w).
       ticket_id r \<noteq> ID ticket \<or> notification_type r \<noteq> NotificationType ticket) \<and>
    recordNotification out cfg ticket status w = (None, w')"
  then obtain js where tbl': "notifications w' =
      upsert (clock w) (CooldownPeriod cfg) (bound_row cfg ticket status js (bound_now out w))
        (notifications w)"
    by (blast elim: recordNotification_ok)
  let ?ex = "bound_row cfg ticket status js (bound_now out w)"
  from a have "filter (same_key ?ex) (notifications w) = []"
    by (simp add: filter_empty_conv same_key_def)
  then have "notifications w' = notifications w @ [?ex\<lparr>first_eligible_at := clock w\<rparr>]"
    by (simp add: tbl' upsert_insert)
  then show "\<exists>r. notifications w' = notifications w @ [r] \<and> first_eligible_at r = clock w \<and>
               ticket_id r = ID ticket \<and> notification_type r = NotificationType ticket"
    by simp
next
  fix i
  assume i: "i < length (notifications w)"
    and a: "ticket_id (notifications w ! i) = ID ticket \<and>
      notification_type (notifications w ! i) = NotificationType ticket \<and>
      update_guard (clock w) (CooldownPeriod cfg) (notifications w ! i) \<and>
      recordNotification out cfg ticket status w = (None, w')"
  then obtain js where tbl': "notifications w' =
      upsert (clock w) (CooldownPeriod cfg) (bound_row cfg ticket status js (bound_now out w))
        (notifications w)"
    by (blast elim: recordNotification_ok)
  let ?ex = "bound_row cfg ticket status js (bound_now out w)"
  from a have "same_key ?ex (notifications w ! i)"
    by (simp add: same_key_def)
  from upsert_conflict_nth(2) [OF i this, of "clock w" "CooldownPeriod cfg"] a
  have upd: "notifications w' ! i = do_update (clock w) ?ex (notifications w ! i)"
    by (simp add: tbl')
  show "queued_at (notifications w' ! i) = Some (CURRENT_TIMESTAMP (clock w))" if "status = StatusQueued"
    using that by (simp add: upd)
  show "sent_at (notifications w' ! i) = Some (CURRENT_TIMESTAMP (clock w))" if "status = StatusSent"
    using that by (simp add: upd)
qed


text \<open>At time 7, recording \<open>queued\<close> for ticket 42 on an empty table inserts a row first
  eligible at 7. On a table with its pending record, first eligible at 100, it stamps
  \<open>queued_at\<close> with 7, as recording \<open>sent\<close> stamps \<open>sent_at\<close>, and the row stays first
  eligible at 100.\<close>

theorem timestamps_frame_witness:
  "(\<exists>r. notifications (snd (recordNotification outside_ok config0 ticket42 StatusQueued
           (world0 [] 7))) = [r] \<and> first_eligible_at r = 7) \<and>
   queued_at (notifications (snd (recordNotification outside_ok config0 ticket42 StatusQueued
      (world0 [row42 StatusPending None None] 7))) ! 0) = Some (UTC_text 7) \<and>
   sent_at (notifications (snd (recordNotification outside_ok config0 ticket42 StatusSent
      (world0 [row42 StatusPending None None] 7))) ! 0) = Some (UTC_text 7) \<and>
   map first_eligible_at (take 1 (notifications (snd (recordNotification outside_ok config0
      ticket42 StatusQueued (world0 [row42 StatusPending None None] 7))))) = [100]"
proof -
  let ?e = "world0 [] 7"
  let ?p = "world0 [row42 StatusPending None None] 7"
  have e: "recordNotification outside_ok config0 ticket42 StatusQueued ?e
      = (None, snd (recordNotification outside_ok config0 ticket42 StatusQueued ?e))"
    by (simp add: recordNotification_def outside_ok_def world0_def)
  have q: "recordNotification outside_ok config0 ticket42 StatusQueued ?p
      = (None, snd (recordNotification outside_ok config0 ticket42 StatusQueued ?p))"
    by (simp add: recordNotification_def outside_ok_def world0_def)
  have s: "recordNotification outside_ok config0 ticket42 StatusSent ?p
      = (None, snd (recordNotification outside_ok config0 ticket42 StatusSent ?p))"
    by (simp add: recordNotification_def outside_ok_def world0_def)
  have tbl: "notifications ?e = []" "clock ?e = 7"
    "notifications ?p = [row42 StatusPending None None]" "clock ?p = 7"
    by (simp_all add: world0_def)
  have row: "ticket_id (row42 StatusPending None None) = ID ticket42"
    "notification_type (row42 StatusPending None None) = NotificationType ticket42"
    "first_eligible_at (row42 StatusPending None None) = 100"
    "update_guard 7 (CooldownPeriod config0) (row42 StatusPending None None)"
    by (simp_all add: row42_def ticket42_def update_guard_def)
  have ins: "\<exists>r. notifications (snd (recordNotification outside_ok config0 ticket42
      StatusQueued ?e)) = [r] \<and> first_eligible_at r = 7"
    using e timestamps_frame [where w = ?e and out = outside_ok and cfg = config0
         and ticket = ticket42 and status = StatusQueued and now = 0 and tid = 0
         and ty = OpenNoAgentResponse and tbl = "[]"
         and w' = "snd (recordNotification outside_ok config0 ticket42 StatusQueued ?e)"]
    by (simp add: tbl) blast
  have que: "queued_at (notifications (snd (recordNotification outside_ok config0 ticket42
        StatusQueued ?p)) ! 0) = Some (UTC_text 7)"
    and fst: "map first_eligible_at (take 1 (notifications (snd (recordNotification
        outside_ok config0 ticket42 StatusQueued ?p)))) = [100]"
    using q timestamps_frame [where w = ?p and out = outside_ok and cfg = config0
         and ticket = ticket42 and status = StatusQueued and now = 0 and tid = 0
         and ty = OpenNoAgentResponse and tbl = "[]"
         and w' = "snd (recordNotification outside_ok config0 ticket42 StatusQueued ?p)"]
    by (simp_all add: tbl row CURRENT_TIMESTAMP_def)
  have snt: "sent_at (notifications (snd (recordNotification outside_ok config0 ticket42
        StatusSent ?p)) ! 0) = Some (UTC_text 7)"
    using s timestamps_frame [where w = ?p and out = outside_ok and cfg = config0
         and ticket = ticket42 and status = StatusSent and now = 0 and tid = 0
         and ty = OpenNoAgentResponse and tbl = "[]"
         and w' = "snd (recordNotification outside_ok config0 ticket42 StatusSent ?p)"]
    by (simp add: tbl row CURRENT_TIMESTAMP_def)
  from ins que snt fst show ?thesis
    by (intro conjI)
qed



subsection \<open>The rate limit\<close>






subsection \<open>Failures on single rows\<close>

text \<open>
  A row of the drained batch that fails, by a malformed ticket, by a send that the
  transport refuses or by a write that the store refuses, is given up and the loop goes on
  with the next row, its counter as it was. None of these failures reaches the error
  counter of the run: the flush adds one error exactly when its drain query fails, and
  nothing otherwise.
\<close>

lemma flush_failures_not_counted:
  "(json_Unmarshal out ticketData = None
      \<longrightarrow> flush_rows out cfg ((tid, ty, Some ticketData) # rows) sent w
            = flush_rows out cfg rows sent w) \<and>
   (json_Unmarshal out ticketData = Some ticket \<and> \<not> DryRun cfg \<and>
    \<not> slack_ok out (calls w) (formatSlackMessage cfg ticket)
      \<longrightarrow> flush_rows out cfg ((tid, ty, Some ticketData) # rows) sent w
            = flush_rows out cfg rows sent (called w)) \<and>
   (json_Unmarshal out ticketData = Some ticket \<and>
    (DryRun cfg \<or> slack_ok out (calls w) (formatSlackMessage cfg ticket)) \<and>
    \<not> local_ok out (calls (if DryRun cfg then w else snd (sendNotification out cfg ticket w)))
      \<longrightarrow> flush_rows out cfg ((tid, ty, Some ticketData) # rows) sent w
            = flush_rows out cfg rows sent
                (called (if DryRun cfg then w else snd (sendNotification out cfg ticket w)))) \<and>
   Errors (fst (flush_at_start_of_day out cfg isStartOfDay stats w))
     = Errors stats + (if isStartOfDay \<and> \<not> local_ok out (calls w) then 1 else 0)"
proof (intro conjI impI)
  assume "json_Unmarshal out ticketData = None"
  then show "flush_rows out cfg ((tid, ty, Some ticketData) # rows) sent w
      = flush_rows out cfg rows sent w"
    by (simp add: flush_row_malformed)
next
  assume "json_Unmarshal out ticketData = Some ticket \<and> \<not> DryRun cfg \<and>
    \<not> slack_ok out (calls w) (formatSlackMessage cfg ticket)"
  then show "flush_rows out cfg ((tid, ty, Some ticketData) # rows) sent w
      = flush_rows out cfg rows sent (called w)"
    by (simp add: flush_row_send_failed)
next
  let ?w1 = "if DryRun cfg then w else snd (sendNotification out cfg ticket w)"
  assume a: "json_Unmarshal out ticketData = Some ticket \<and>
    (DryRun cfg \<or> slack_ok out (calls w) (formatSlackMessage cfg ticket)) \<and>
    \<not> local_ok out (calls ?w1)"
  then have "flush_row out cfg (tid, ty, Some ticketData) sent w = (sent, called ?w1)"
    by (intro flush_row_write_failed [where ticket = ticket]) simp_all
  then show "flush_rows out cfg ((tid, ty, Some ticketData) # rows) sent w
      = flush_rows out cfg rows sent (called ?w1)"
    by simp
next
  show "Errors (fst (flush_at_start_of_day out cfg isStartOfDay stats w))
     = Errors stats + (if isStartOfDay \<and> \<not> local_ok out (calls w) then 1 else 0)"
  proof (cases "isStartOfDay \<and> \<not> local_ok out (calls w)")
    case True
    then show ?thesis
      by (simp add: flush_at_start_of_day_def sendQueuedNotifications_def)
  next
    case False
    then show ?thesis
      by (cases "flush_rows out cfg (select_queued (MaxNotifications cfg) (notifications w)) 0
                   (called w)")
         (auto simp: flush_at_start_of_day_def sendQueuedNotifications_def)
  qed
qed


lemma office_opens: "IsBusinessHours office 32400 \<and> IsStartOfBusinessDay office 32400"
  by (simp add: IsStartOfBusinessDay_def IsBusinessHours_def In_loc_def index_bool_def
        office_def july_2024_def Sprintf_d_def decimal.simps digit_def)

lemma drain_queue3:
  "select_queued 50 queue3 =
     [(7, OpenNoAgentResponse, Some ''{''), (42, OpenNoAgentResponse, Some ''42''),
      (42, PendingNoCustomerResponse, Some ''42'')]"
  by (simp add: select_queued_def queue3_def row42_def text_key_def)

lemma office_at_ten: "IsBusinessHours office 36000 \<and> \<not> IsStartOfBusinessDay office 36000"
  by (simp add: IsStartOfBusinessDay_def IsBusinessHours_def In_loc_def index_bool_def
        office_def july_2024_def Sprintf_d_def decimal.simps digit_def)

text \<open>
  C5. The claim is that every failure on a single item of the flush, a send that fails, a
  write of the sent status that fails or a malformed ticket, is counted as an error of the
  run, and that the flush goes on with the next item. The flush does go on, and counts
  nothing. A pass at the opening of the office, Monday 09:00, over \<^const>\<open>queue3\<close> and
  with no new ticket: the three rows fail, each in its way, all three are still queued, and
  the pass reports no error. The loop of the same pass over the new tickets does count: at
  10:00, with \<^const>\<open>ticket42\<close> new and the transport refusing it, the pass reports one
  error.
\<close>

theorem flush_failures_leave_error_counter:
  "fst (Run outside_failing config0 office (world0 queue3 32400))
     = (\<lparr>TicketsChecked = 0, NotificationsSent = 0, NotificationsQueued = 0, Errors = 0,
         Duration = 0\<rparr>, None) \<and>
   map notification_status (notifications (snd (Run outside_failing config0 office
     (world0 queue3 32400)))) = [StatusQueued, StatusQueued, StatusQueued] \<and>
   json_Unmarshal outside_failing ''{'' = None \<and>
   fst (sendNotification outside_failing config0 ticket42 (called (world0 queue3 32400)))
     = Some SendError \<and>
   \<not> local_ok outside_failing 3 \<and>
   fst (Run outside_refusing_new config0 office (world0 [] 36000))
     = (\<lparr>TicketsChecked = 1, NotificationsSent = 0, NotificationsQueued = 0, Errors = 1,
         Duration = 0\<rparr>, None)"
proof -
  let ?w = "world0 queue3 32400"
  have out: "json_Unmarshal outside_failing ''{'' = None"
    "json_Unmarshal outside_failing ''42'' = Some ticket42"
    "\<And>m. \<not> slack_ok outside_failing (Suc 0) m"
    "\<And>m. slack_ok outside_failing (Suc (Suc 0)) m"
    "\<not> local_ok outside_failing (Suc (Suc (Suc 0)))" "local_ok outside_failing 0"
    "GetOpenTicketsNeedingAttention outside_failing = (\<lambda>d. Some [])"
    "GetPendingTicketsNeedingAttention outside_failing = (\<lambda>d. Some [])"
    by (simp_all add: outside_failing_def outside_ok_def)
  have cfg: "\<not> DryRun config0" "MaxNotifications config0 = 50"
    by (simp_all add: config0_def)
  have w: "calls ?w = 0" "notifications ?w = queue3" "clock ?w = 32400"
    by (simp_all add: world0_def)
  have flush: "sendQueuedNotifications outside_failing config0 ?w
      = ((0, None), called (snd (sendNotification outside_failing config0 ticket42
           (called (called ?w)))))"
    by (simp add: sendQueuedNotifications_def w cfg out drain_queue3 flush_row_def
          sendNotification_def Let_def)
  have run: "Run outside_failing config0 office ?w
      = ((\<lparr>TicketsChecked = 0, NotificationsSent = 0, NotificationsQueued = 0, Errors = 0,
           Duration = 0\<rparr>, None),
         called (snd (sendNotification outside_failing config0 ticket42 (called (called ?w)))))"
    by (simp add: Run_def flush_at_start_of_day_def office_opens w flush out)
  have "fst (sendNotification outside_failing config0 ticket42 (called ?w)) = Some SendError"
    by (simp add: sendNotification_def w out)
  moreover have "map notification_status queue3 = [StatusQueued, StatusQueued, StatusQueued]"
    by (simp add: queue3_def row42_def)
  moreover have "\<not> local_ok outside_failing 3"
    by (simp add: outside_failing_def)
  moreover have "fst (Run outside_refusing_new config0 office (world0 [] 36000))
     = (\<lparr>TicketsChecked = 1, NotificationsSent = 0, NotificationsQueued = 0, Errors = 1,
         Duration = 0\<rparr>, None)"
  proof -
    let ?v = "world0 [] 36000"
    have new: "GetOpenTicketsNeedingAttention outside_refusing_new = (\<lambda>d. Some [ticket42])"
      "GetPendingTicketsNeedingAttention outside_refusing_new = (\<lambda>d. Some [])"
      "\<And>k. local_ok outside_refusing_new k" "\<And>k m. \<not> slack_ok outside_refusing_new k m"
      by (simp_all add: outside_refusing_new_def outside_refusing_def outside_ok_def)
    have v: "calls ?v = 0" "notifications ?v = []" "clock ?v = 36000"
      by (simp_all add: world0_def)
    have skip: "shouldSkipTicket outside_refusing_new config0 ticket42 ?v
        = (Inr False, called ?v)"
      by (simp add: shouldSkipTicket_def new v select_latest_def)
    have one: "processTicket outside_refusing_new config0 ticket42 True
        \<lparr>TicketsChecked = 1, NotificationsSent = 0, NotificationsQueued = 0, Errors = 0,
         Duration = 0\<rparr> ?v
        = (Some SendError,
           \<lparr>TicketsChecked = 1, NotificationsSent = 0, NotificationsQueued = 0, Errors = 0,
            Duration = 0\<rparr>, called (called ?v))"
      by (simp add: processTicket_def skip cfg sendNotification_failed new)
    show ?thesis
      by (simp add: Run_def flush_at_start_of_day_def office_at_ten new v one)
  qed
  ultimately show ?thesis
    by (simp add: run w out)
qed



subsection \<open>A send that fails\<close>

text \<open>The drain returns queued rows of the table, each key once when the table has each
  key once, as the \<^verbatim>\<open>UNIQUE\<close> constraint has it.\<close>

lemma select_queued_from_table:
  assumes "(tid, ty, d) \<in> set (select_queued lim tbl)"
  shows "\<exists>r\<in>set tbl. ticket_id r = tid \<and> notification_type r = ty \<and> ticket_data r = d \<and>
           notification_status r = StatusQueued"
proof -
  let ?rows = "sort_key (\<lambda>r. map_option text_key (queued_at r)) (filter (\<lambda>r. notification_status r = StatusQueued) tbl)"
  let ?sel = "if lim < 0 then ?rows else take (nat lim) ?rows"
  have "select_queued lim tbl
      = map (\<lambda>r. (ticket_id r, notification_type r, ticket_data r)) ?sel"
    by (simp add: select_queued_def Let_def)
  with assms have "(tid, ty, d) \<in> (\<lambda>r. (ticket_id r, notification_type r, ticket_data r)) ` set ?sel"
    by (simp only: set_map)
  then obtain r where r: "r \<in> set ?sel"
    and eq: "(tid, ty, d) = (ticket_id r, notification_type r, ticket_data r)"
    by (rule imageE)
  have "r \<in> set ?rows"
  proof (cases "lim < 0")
    case True
    with r show ?thesis by simp
  next
    case False
    with r have "r \<in> set (take (nat lim) ?rows)" by simp
    then show ?thesis by (rule in_set_takeD)
  qed
  then have "r \<in> set tbl" "notification_status r = StatusQueued" by simp_all
  moreover from eq have "ticket_id r = tid" "notification_type r = ty" "ticket_data r = d"
    by simp_all
  ultimately show ?thesis by blast
qed

lemma select_queued_keys_distinct:
  assumes "distinct (map (\<lambda>r. (ticket_id r, notification_type r)) tbl)"
  shows "distinct (map (\<lambda>(tid, ty, d). (tid, ty)) (select_queued lim tbl))"
proof -
  let ?key = "\<lambda>r. (ticket_id r, notification_type r)"
  let ?queued = "filter (\<lambda>r. notification_status r = StatusQueued) tbl"
  let ?rows = "sort_key (\<lambda>r. map_option text_key (queued_at r)) ?queued"
  from assms have "distinct (map ?key ?queued)"
    by (rule distinct_map_filter)
  then have "distinct ?queued" "inj_on ?key (set ?queued)"
    by (simp_all add: distinct_map)
  then have sorted: "distinct (map ?key ?rows)"
    by (simp add: distinct_map)
  then have "distinct (take (nat lim) (map ?key ?rows))"
    by (rule distinct_take)
  then have taken: "distinct (map ?key (take (nat lim) ?rows))"
    by (simp add: take_map)
  have "map (\<lambda>(tid, ty, d). (tid, ty)) (select_queued lim tbl)
      = map ?key (if lim < 0 then ?rows else take (nat lim) ?rows)"
    by (simp add: select_queued_def Let_def comp_def)
  with sorted taken show ?thesis by simp
qed

text \<open>Marking another key sent, and so a flush over rows of other keys, leaves the
  records of a key as they are.\<close>

lemma update_sent_other_key:
  "(tid', ty') \<noteq> (tid, ty) \<Longrightarrow>
   filter (\<lambda>r. ticket_id r = tid \<and> notification_type r = ty) (update_sent now tid' ty' tbl)
     = filter (\<lambda>r. ticket_id r = tid \<and> notification_type r = ty) tbl"
  by (induction tbl) (auto simp: update_sent_def)

lemma flush_rows_other_keys:
  assumes "(tid, ty) \<notin> set (map (\<lambda>(tid, ty, d). (tid, ty)) rows)"
  shows "filter (\<lambda>r. ticket_id r = tid \<and> notification_type r = ty)
           (notifications (snd (flush_rows out cfg rows sent w)))
         = filter (\<lambda>r. ticket_id r = tid \<and> notification_type r = ty) (notifications w)"
  using assms
proof (induction rows arbitrary: sent w)
  case Nil
  show ?case by simp
next
  case (Cons row rows)
  obtain tid' ty' scanned where row: "row = (tid', ty', scanned)"
    by (cases row)
  with Cons.prems have other: "(tid', ty') \<noteq> (tid, ty)"
    and rest: "(tid, ty) \<notin> set (map (\<lambda>(tid, ty, d). (tid, ty)) rows)"
    by auto
  obtain s1 w1 where step: "flush_row out cfg (tid', ty', scanned) sent w = (s1, w1)"
    by (cases "flush_row out cfg (tid', ty', scanned) sent w")
  from step have "filter (\<lambda>r. ticket_id r = tid \<and> notification_type r = ty) (notifications w1)
      = filter (\<lambda>r. ticket_id r = tid \<and> notification_type r = ty) (notifications w)"
    by (cases rule: flush_row_cases) (simp_all add: update_sent_other_key [OF other])
  with Cons.IH [OF rest, of s1 w1] show ?case
    by (simp add: row step)
qed

lemma flush_rows_count:
  "fst (flush_rows out cfg rows sent w) \<le> sent + int (length rows)"
proof (induction rows arbitrary: sent w)
  case Nil
  show ?case by simp
next
  case (Cons row rows)
  obtain tid ty scanned where row: "row = (tid, ty, scanned)"
    by (cases row)
  obtain s1 w1 where step: "flush_row out cfg (tid, ty, scanned) sent w = (s1, w1)"
    by (cases "flush_row out cfg (tid, ty, scanned) sent w")
  from step have "s1 \<le> sent + 1"
    by (cases rule: flush_row_cases) simp_all
  with Cons.IH [of s1 w1] show ?case
    by (simp add: row step)
qed

lemma flush_rows_log:
  "business_hours_log (snd (flush_rows out cfg rows sent w)) = business_hours_log w"
proof (induction rows arbitrary: sent w)
  case Nil
  show ?case by simp
next
  case (Cons row rows)
  obtain tid ty scanned where row: "row = (tid, ty, scanned)"
    by (cases row)
  obtain s1 w1 where step: "flush_row out cfg (tid, ty, scanned) sent w = (s1, w1)"
    by (cases "flush_row out cfg (tid, ty, scanned) sent w")
  from step have "business_hours_log w1 = business_hours_log w"
    by (cases rule: flush_row_cases) simp_all
  with Cons.IH [of s1 w1] show ?case
    by (simp add: row step)
qed

lemma flush_rows_append:
  "flush_rows out cfg (xs @ ys) sent w =
     (case flush_rows out cfg xs sent w of (s1, w1) \<Rightarrow> flush_rows out cfg ys s1 w1)"
  by (induction xs arbitrary: sent w) (simp_all split: prod.splits)


lemma filter_unique_key:
  assumes "distinct (map key tbl)" and "r \<in> set tbl"
  shows "filter (\<lambda>x. key x = key r) tbl = [r]"
  using assms
proof (induction tbl)
  case Nil
  then show ?case by simp
next
  case (Cons a tbl)
  show ?case
  proof (cases "a = r")
    case True
    with Cons.prems have "key r \<notin> key ` set tbl" by simp
    then have "filter (\<lambda>x. key x = key r) tbl = []"
      by (simp add: filter_empty_conv image_iff) metis
    with True show ?thesis by simp
  next
    case False
    with Cons.prems have r: "r \<in> set tbl" and "key a \<notin> key ` set tbl" by simp_all
    then have "key a \<noteq> key r" by (metis imageI)
    with Cons.IH r Cons.prems show ?thesis by simp
  qed
qed

lemma sendQueuedNotifications_ok:
  assumes "local_ok out (calls w)"
    and "flush_rows out cfg (select_queued (MaxNotifications cfg) (notifications w)) 0 (called w)
         = (sent, w1)"
  shows "sendQueuedNotifications out cfg w
         = ((sent, None), if sent > 0 then log_burst out sent w1 else w1)"
  using assms by (simp add: sendQueuedNotifications_def)

text \<open>
  C10, as the code has it. In a flush that is not a dry run, let the send fail for a
  drained record. The turn of the loop ends there and its counter stays as it is, so the
  record is not in the sent total, which is at most the number of the other drained rows,
  nor in the count of the burst-log entry, which is that total. At the end of the flush
  the record is the very row it was: queued, with the \<open>queued_at\<close> and the \<open>sent_at\<close>
  it had, and the next drain query selects it again by its status. (The \<open>sent_at\<close> is
  null only if the record was never sent; one queued again after an earlier send keeps
  that \<open>sent_at\<close>.) The table has each key once, as its \<^verbatim>\<open>UNIQUE\<close> constraint has it.
\<close>

theorem failed_send_keeps_record:
  assumes query: "local_ok out (calls w)"
    and uniq: "distinct (map (\<lambda>r. (ticket_id r, notification_type r)) (notifications w))"
    and drained: "select_queued (MaxNotifications cfg) (notifications w)
                    = pre @ (tid, ty, Some ticketData) # post"
    and before: "flush_rows out cfg pre 0 (called w) = (sent_i, w_i)"
    and ticket: "json_Unmarshal out ticketData = Some ticket"
    and live: "\<not> DryRun cfg"
    and failed: "\<not> slack_ok out (calls w_i) (formatSlackMessage cfg ticket)"
  shows
    "flush_row out cfg (tid, ty, Some ticketData) sent_i w_i = (sent_i, called w_i) \<and>
     (\<exists>r. filter (\<lambda>r. ticket_id r = tid \<and> notification_type r = ty) (notifications w) = [r] \<and>
          filter (\<lambda>r. ticket_id r = tid \<and> notification_type r = ty)
            (notifications (snd (sendQueuedNotifications out cfg w))) = [r] \<and>
          notification_status r = StatusQueued \<and> ticket_data r = Some ticketData) \<and>
     fst (fst (sendQueuedNotifications out cfg w)) \<le> int (length pre + length post) \<and>
     (\<exists>es. business_hours_log (snd (sendQueuedNotifications out cfg w))
             = business_hours_log w @ es \<and>
           (\<forall>e\<in>set es. notifications_sent e = fst (fst (sendQueuedNotifications out cfg w))))"
proof -
  let ?key = "\<lambda>r. ticket_id r = tid \<and> notification_type r = ty"
  let ?rows = "select_queued (MaxNotifications cfg) (notifications w)"
  have step: "flush_row out cfg (tid, ty, Some ticketData) sent_i w_i = (sent_i, called w_i)"
    using ticket live failed by (rule flush_row_send_failed)
  obtain sent w1 where after: "flush_rows out cfg post sent_i (called w_i) = (sent, w1)"
    by (cases "flush_rows out cfg post sent_i (called w_i)")
  have whole: "flush_rows out cfg ?rows 0 (called w) = (sent, w1)"
    by (simp add: drained flush_rows_append before step after)
  note result = sendQueuedNotifications_ok [OF query whole]
  \<comment> \<open>the keys of the batch\<close>
  have "distinct (map (\<lambda>(tid, ty, d). (tid, ty)) ?rows)"
    using uniq by (rule select_queued_keys_distinct)
  then have not_pre: "(tid, ty) \<notin> set (map (\<lambda>(tid, ty, d). (tid, ty)) pre)"
    and not_post: "(tid, ty) \<notin> set (map (\<lambda>(tid, ty, d). (tid, ty)) post)"
    by (simp_all add: drained)
  \<comment> \<open>the record\<close>
  have "(tid, ty, Some ticketData) \<in> set ?rows"
    by (simp add: drained)
  then obtain r where r: "r \<in> set (notifications w)" "ticket_id r = tid"
    "notification_type r = ty" "ticket_data r = Some ticketData"
    "notification_status r = StatusQueued"
    by (blast dest: select_queued_from_table)
  from filter_unique_key [OF uniq r(1)] r(2,3)
  have at_start: "filter ?key (notifications w) = [r]"
    by simp
  have "filter ?key (notifications w1) = filter ?key (notifications (called w_i))"
    using flush_rows_other_keys [OF not_post, of out cfg sent_i "called w_i"] by (simp add: after)
  also have "\<dots> = filter ?key (notifications (called w))"
    using flush_rows_other_keys [OF not_pre, of out cfg 0 "called w"] by (simp add: before)
  finally have at_end: "filter ?key (notifications (snd (sendQueuedNotifications out cfg w))) = [r]"
    by (simp add: result at_start)
  \<comment> \<open>the counts\<close>
  have "sent_i \<le> int (length pre)"
    using flush_rows_count [of out cfg pre 0 "called w"] by (simp add: before)
  moreover have "sent \<le> sent_i + int (length post)"
    using flush_rows_count [of out cfg post sent_i "called w_i"] by (simp add: after)
  ultimately have total: "fst (fst (sendQueuedNotifications out cfg w)) \<le> int (length pre + length post)"
    by (simp add: result)
  have "business_hours_log w1 = business_hours_log w"
    using flush_rows_log [of out cfg ?rows 0 "called w"] by (simp add: whole)
  then have "business_hours_log (snd (sendQueuedNotifications out cfg w))
      = business_hours_log w @
          (if sent > 0 \<and> local_ok out (calls w1)
           then [\<lparr>event_type = ''burst_sent'', event_time = clock w1, notifications_sent = sent\<rparr>]
           else [])"
    by (simp add: result log_burst_def)
  moreover have "\<forall>e\<in>set (if sent > 0 \<and> local_ok out (calls w1)
           then [\<lparr>event_type = ''burst_sent'', event_time = clock w1, notifications_sent = sent\<rparr>]
           else []). notifications_sent e = fst (fst (sendQueuedNotifications out cfg w))"
    by (simp add: result)
  ultimately have log: "\<exists>es. business_hours_log (snd (sendQueuedNotifications out cfg w))
             = business_hours_log w @ es \<and>
           (\<forall>e\<in>set es. notifications_sent e = fst (fst (sendQueuedNotifications out cfg w)))"
    by blast
  from step at_start at_end r(4,5) total log show ?thesis
    by blast
qed


text \<open>In the flush of \<^const>\<open>queue3\<close> the send for the second drained row fails: the
  counter stays at 0, the record of ticket 42 is at the end the row it was, and the total
  is at most 2.\<close>

theorem failed_send_keeps_record_witness:
  "flush_row outside_failing config0 (42, OpenNoAgentResponse, Some ''42'') 0
       (called (world0 queue3 32400))
     = (0, called (called (world0 queue3 32400))) \<and>
   filter (\<lambda>r. ticket_id r = 42 \<and> notification_type r = OpenNoAgentResponse)
       (notifications (snd (sendQueuedNotifications outside_failing config0
          (world0 queue3 32400))))
     = [row42 StatusQueued (Some 6) None] \<and>
   fst (fst (sendQueuedNotifications outside_failing config0 (world0 queue3 32400))) \<le> 2"
proof -
  let ?w = "world0 queue3 32400"
  have query: "local_ok outside_failing (calls ?w)"
    by (simp add: outside_failing_def world0_def)
  have uniq: "distinct (map (\<lambda>r. (ticket_id r, notification_type r)) (notifications ?w))"
    by (simp add: world0_def queue3_def row42_def)
  have drained: "select_queued (MaxNotifications config0) (notifications ?w)
      = [(7, OpenNoAgentResponse, Some ''{'')] @ (42, OpenNoAgentResponse, Some ''42'')
          # [(42, PendingNoCustomerResponse, Some ''42'')]"
    by (simp add: world0_def config0_def drain_queue3)
  have before: "flush_rows outside_failing config0 [(7, OpenNoAgentResponse, Some ''{'')] 0
      (called ?w) = (0, called ?w)"
    by (simp add: flush_row_malformed outside_failing_def outside_ok_def)
  have ticket: "json_Unmarshal outside_failing ''42'' = Some ticket42"
    by (simp add: outside_failing_def outside_ok_def)
  have live: "\<not> DryRun config0"
    by (simp add: config0_def)
  have failed: "\<not> slack_ok outside_failing (calls (called ?w)) (formatSlackMessage config0 ticket42)"
    by (simp add: outside_failing_def world0_def)
  have row: "filter (\<lambda>r. ticket_id r = 42 \<and> notification_type r = OpenNoAgentResponse)
      (notifications ?w) = [row42 StatusQueued (Some 6) None]"
    by (simp add: world0_def queue3_def row42_def)
  from failed_send_keeps_record [OF query uniq drained before ticket live failed]
  show ?thesis
    by (simp add: row)
qed

text \<open>The record of \<^const>\<open>requeued\<close> is queued and still bears the \<open>sent_at\<close> of its
  earlier send. The flush drains it, the transport refuses it, and the record stays queued
  with a \<open>sent_at\<close> that is not null.\<close>

theorem failed_send_keeps_earlier_sent_at:
  "select_queued 50 (notifications requeued) = [(42, OpenNoAgentResponse, Some ''42'')] \<and>
   fst (sendNotification outside_refusing config0 ticket42 (called requeued)) = Some SendError \<and>
   fst (sendQueuedNotifications outside_refusing config0 requeued) = (0, None) \<and>
   map notification_status (notifications (snd (sendQueuedNotifications outside_refusing
     config0 requeued))) = [StatusQueued] \<and>
   map queued_at (notifications (snd (sendQueuedNotifications outside_refusing
     config0 requeued))) = [Some (UTC_text 20000)] \<and>
   map sent_at (notifications (snd (sendQueuedNotifications outside_refusing
     config0 requeued))) = [Some (UTC_text 1000)]"
proof -
  have cfg: "CooldownPeriod config0 = 14400" "MaxNotifications config0 = 50"
    "\<not> DryRun config0"
    by (simp_all add: config0_def Hour_def Minute_def Second_def)
  have json: "json_Marshal outside_ok ticket42 = Some ''42''" "\<And>k. local_ok outside_ok k"
    "\<And>t. local_offset outside_ok t = 0"
    by (simp_all add: outside_ok_def ticket42_def Sprintf_d_def decimal.simps digit_def)
  have rec: "requeued = (called (world0 [row42 StatusSent None (Some 1000)] 20000))
      \<lparr>notifications := upsert 20000 14400
         (bound_row config0 ticket42 StatusQueued ''42'' (Local_text 20000 0))
         [row42 StatusSent None (Some 1000)]\<rparr>"
    by (simp add: requeued_def recordNotification_def json cfg world0_def bound_now_def)
  have tbl: "notifications requeued
      = [(row42 StatusQueued (Some 20000) (Some 1000))\<lparr>minutes_waiting := 180\<rparr>]"
    by (simp add: rec upsert_def same_key_def update_guard_def datetime_now_minus_def
          text_key_def CURRENT_TIMESTAMP_def do_update_def bound_row_def row42_def
          ticket42_def Let_def)
  have calls: "calls requeued = Suc 0"
    by (simp add: rec world0_def)
  have out: "local_ok outside_refusing (Suc 0)"
    "json_Unmarshal outside_refusing ''42'' = Some ticket42"
    "\<And>k m. \<not> slack_ok outside_refusing k m"
    by (simp_all add: outside_refusing_def outside_ok_def)
  have drain: "select_queued 50 (notifications requeued)
      = [(42, OpenNoAgentResponse, Some ''42'')]"
    by (simp add: tbl select_queued_def row42_def)
  have send: "fst (sendNotification outside_refusing config0 ticket42 (called requeued))
      = Some SendError"
    by (simp add: sendNotification_def out)
  have flush: "sendQueuedNotifications outside_refusing config0 requeued
      = ((0, None), called (called requeued))"
    by (simp add: sendQueuedNotifications_def calls out cfg drain flush_row_send_failed)
  have "notifications (called (called requeued))
      = [(row42 StatusQueued (Some 20000) (Some 1000))\<lparr>minutes_waiting := 180\<rparr>]"
    by (simp add: tbl)
  then have "map notification_status (notifications (called (called requeued))) = [StatusQueued]"
    and "map queued_at (notifications (called (called requeued))) = [Some (UTC_text 20000)]"
    and "map sent_at (notifications (called (called requeued))) = [Some (UTC_text 1000)]"
    by (simp_all add: row42_def)
  with drain send show ?thesis
    by (simp only: flush fst_conv snd_conv simp_thms)
qed

section \<open>Properties of the message\<close>

text \<open>
  C9. \<^const>\<open>formatDuration\<close> writes the hours in the singular for one hour and in the
  plural otherwise, but the minutes always in the plural: one minute is \<open>1 minutes\<close>,
  sixty-one are \<open>1 hour 1 minutes\<close>, and 121, one minute over the default threshold of
  two hours, are \<open>2 hours 1 minutes\<close>.
\<close>

theorem formatDuration_one_minute:
  "formatDuration (1 * Minute) = ''1 minutes'' \<and>
   formatDuration (61 * Minute) = ''1 hour 1 minutes'' \<and>
   formatDuration (121 * Minute) = ''2 hours 1 minutes'' \<and>
   formatDuration (60 * Minute) = ''1 hour'' \<and>
   formatDuration (120 * Minute) = ''2 hours''"
  by (simp add: formatDuration_def Hour_def Minute_def Second_def Hours_def Minutes_def
        Sprintf_d_def decimal.simps digit_def)

end
